theory Spec2Isabelle
  imports Complex_Main
begin

section \<open>Geometry value objects (core.js, classes Vector2, SDim, SDim2)\<close>

text \<open>
  JavaScript numbers are modelled as real numbers: finite, exact arithmetic. The
  constructors of the source reject NaN, so a well-formed value object holds numbers.
  The fields \<open>x\<close> and \<open>y\<close> of Vector2 are written \<open>vx\<close> and \<open>vy\<close>, so that the
  variables \<open>x\<close> and \<open>y\<close> stay free for statements.
\<close>

record Vector2 =
  vx :: real
  vy :: real

record SDim =
  scale :: real
  offset :: real

record SDim2 =
  scaleX :: real
  offsetX :: real
  scaleY :: real
  offsetY :: real

text \<open>\<open>new Vector2()\<close>, \<open>new SDim()\<close>, \<open>new SDim2()\<close>: every argument at its default 0.\<close>

definition Vector2_new :: Vector2 where
  "Vector2_new = \<lparr>vx = 0, vy = 0\<rparr>"

definition SDim_new :: SDim where
  "SDim_new = \<lparr>scale = 0, offset = 0\<rparr>"

definition SDim2_new :: SDim2 where
  "SDim2_new = \<lparr>scaleX = 0, offsetX = 0, scaleY = 0, offsetY = 0\<rparr>"

text \<open>\<open>SDim.fromOffset(offset)\<close> is \<open>new SDim(0, offset)\<close>.\<close>

definition SDim_fromOffset :: "real \<Rightarrow> SDim" where
  "SDim_fromOffset off = \<lparr>scale = 0, offset = off\<rparr>"

text \<open>
  \<open>SDim2.fromScale(scaleX, scaleY)\<close> is \<open>new SDim2(scaleX, 0, scaleY, 0)\<close>;
  \<open>SDim2.fromOffset(offsetX, offsetY)\<close> is \<open>new SDim2(offsetX, offsetY)\<close>, and the
  two-argument constructor stores its arguments as the offsets, with both scales 0.
\<close>

definition SDim2_fromScale :: "real \<Rightarrow> real \<Rightarrow> SDim2" where
  "SDim2_fromScale sx sy = \<lparr>scaleX = sx, offsetX = 0, scaleY = sy, offsetY = 0\<rparr>"

definition SDim2_fromOffset :: "real \<Rightarrow> real \<Rightarrow> SDim2" where
  "SDim2_fromOffset ox oy = \<lparr>scaleX = 0, offsetX = ox, scaleY = 0, offsetY = oy\<rparr>"

section \<open>Enums, colours, paints\<close>

text \<open>
  \<open>Array.prototype.indexOf\<close>: the index of the first occurrence, or -1.
  An \<open>Enum\<close> is the function \<open>value => values.indexOf(value)\<close>.
\<close>

fun indexOf :: "'a list \<Rightarrow> 'a \<Rightarrow> int" where
  "indexOf [] v = -1"
| "indexOf (u # us) v = (if u = v then 0 else (let i = indexOf us v in if i < 0 then -1 else i + 1))"

definition Enum :: "string list \<Rightarrow> string \<Rightarrow> int" where
  "Enum values v = indexOf values v"

definition PaintType :: "string \<Rightarrow> int" where
  "PaintType = Enum [''Color'', ''LinearGradient'', ''RadialGradient'', ''Image'']"

definition TextAlign :: "string \<Rightarrow> int" where
  "TextAlign = Enum [''Left'', ''Center'', ''Right'', ''Justify'', ''Start'', ''End'']"

definition VerticalTextAlign :: "string \<Rightarrow> int" where
  "VerticalTextAlign = Enum [''Top'', ''Middle'', ''Bottom'']"

text \<open>A colour holds r, g, b, a; a fill paint holds its type and, when made from a colour, the colour.\<close>

datatype Color = Color real real real real

definition Color_fromRGB :: "real \<Rightarrow> real \<Rightarrow> real \<Rightarrow> real \<Rightarrow> Color" where
  "Color_fromRGB r g b a = Color (r / 255) (g / 255) (b / 255) a"

datatype FillPaint = FillPaint (paint_type: "int option") (paint_color: "Color option")

definition FillPaint_fromColor :: "Color \<Rightarrow> FillPaint" where
  "FillPaint_fromColor c = FillPaint (Some (PaintType ''Color'')) (Some c)"

section \<open>Styles (class UIStyle)\<close>

text \<open>Every field of a style is nullable; \<open>None\<close> is \<open>null\<close>.\<close>

record UIStyle =
  background :: "FillPaint option"
  color :: "Color option"
  paddingLeft :: "SDim option"
  paddingTop :: "SDim option"
  paddingRight :: "SDim option"
  paddingBottom :: "SDim option"
  textSize :: "real option"
  textAlign :: "int option"
  verticalTextAlign :: "int option"

text \<open>\<open>new UIStyle()\<close>: every field null.\<close>

definition UIStyle_new :: UIStyle where
  "UIStyle_new = \<lparr>background = None, color = None, paddingLeft = None, paddingTop = None,
     paddingRight = None, paddingBottom = None, textSize = None, textAlign = None,
     verticalTextAlign = None\<rparr>"

text \<open>\<open>UIStyle.fromDefault()\<close> and the frozen \<open>UIStyle.default\<close>.\<close>

definition UIStyle_fromDefault :: UIStyle where
  "UIStyle_fromDefault = \<lparr>
     background = Some (FillPaint_fromColor (Color_fromRGB 255 255 255 1)),
     color = Some (Color_fromRGB 0 0 0 1),
     paddingLeft = Some SDim_new, paddingTop = Some SDim_new,
     paddingRight = Some SDim_new, paddingBottom = Some SDim_new,
     textSize = Some 14,
     textAlign = Some (TextAlign ''Center''),
     verticalTextAlign = Some (VerticalTextAlign ''Middle'')\<rparr>"

definition UIStyle_default :: UIStyle where
  "UIStyle_default = UIStyle_fromDefault"

text \<open>
  \<open>UIStyle.merge(styles)\<close>. The statement
  \<open>if (style[property] !== null) newStyle[property] = style[property]\<close>
  is \<open>assign\<close>; the inner loop over the properties of one style is \<open>merge_step\<close>; the
  outer loop over the array is the left fold.
\<close>

definition assign :: "'a option \<Rightarrow> 'a option \<Rightarrow> 'a option" where
  "assign old v = (case v of None \<Rightarrow> old | Some u \<Rightarrow> Some u)"

definition merge_step :: "UIStyle \<Rightarrow> UIStyle \<Rightarrow> UIStyle" where
  "merge_step newStyle s = newStyle\<lparr>
     background := assign (background newStyle) (background s),
     color := assign (color newStyle) (color s),
     paddingLeft := assign (paddingLeft newStyle) (paddingLeft s),
     paddingTop := assign (paddingTop newStyle) (paddingTop s),
     paddingRight := assign (paddingRight newStyle) (paddingRight s),
     paddingBottom := assign (paddingBottom newStyle) (paddingBottom s),
     textSize := assign (textSize newStyle) (textSize s),
     textAlign := assign (textAlign newStyle) (textAlign s),
     verticalTextAlign := assign (verticalTextAlign newStyle) (verticalTextAlign s)\<rparr>"

definition merge :: "UIStyle list \<Rightarrow> UIStyle" where
  "merge ss = foldl merge_step UIStyle_new ss"

text \<open>
  The words of the specification, for comparison with \<open>merge\<close>: the value of the last
  style in the sequence whose field is non-null (null when there is none).
\<close>

definition last_non_null :: "'a option list \<Rightarrow> 'a option" where
  "last_non_null vs =
     (let nonNull = filter (\<lambda>v. v \<noteq> None) vs in if nonNull = [] then None else last nonNull)"

section \<open>Nodes, contexts and the store\<close>

text \<open>
  Nodes and contexts are mutable objects that refer to each other (parent, children,
  the relayout list), so they live in a store: a node is named by its address.
  The store holds UIObjects (Frame and TextLabel included); a plain \<open>Node\<close>, which has
  no \<open>visible\<close> and no \<open>layout\<close>, is never scheduled, laid out or painted and is left out.
  Vector2 caches are stored by value: a UIObject writes only into Vector2 objects of its
  own, and the size of a context, which the root's absoluteSize refers to, is replaced
  on a resize, not edited.
\<close>

type_synonym ref = nat
type_synonym cref = nat

text \<open>The value of a style property read by name (\<open>style[property]\<close>).\<close>

datatype style_value =
  PaintValue FillPaint | ColorValue Color | SDimValue SDim | NumberValue real

definition style_get :: "UIStyle \<Rightarrow> string \<Rightarrow> style_value option" where
  "style_get s p =
     (if p = ''background'' then map_option PaintValue (background s)
      else if p = ''color'' then map_option ColorValue (color s)
      else if p = ''paddingLeft'' then map_option SDimValue (paddingLeft s)
      else if p = ''paddingTop'' then map_option SDimValue (paddingTop s)
      else if p = ''paddingRight'' then map_option SDimValue (paddingRight s)
      else if p = ''paddingBottom'' then map_option SDimValue (paddingBottom s)
      else if p = ''textSize'' then map_option NumberValue (textSize s)
      else if p = ''textAlign'' then map_option (\<lambda>i. NumberValue (of_int i)) (textAlign s)
      else if p = ''verticalTextAlign'' then map_option (\<lambda>i. NumberValue (of_int i)) (verticalTextAlign s)
      else None)"

text \<open>
  The function stored in the \<open>layout\<close> property: the default \<open>layout\<close>, the one the
  Context gives its root, or TextLabel's.
\<close>

datatype layout_kind = DefaultLayout | RootLayout | TextLabelLayout

text \<open>
  \<open>ctx\<close> is \<open>_context\<close>, \<open>parent\<close> is the private \<open>#parent\<close>, \<open>size_dim\<close> is \<open>size\<close>,
  \<open>styleTriggersLayout\<close> is \<open>_styleTriggersLayout\<close> (keys in insertion order).
  \<open>writeProtected\<close> holds for a context's root, whose properties name, parent,
  _context, visible, size, position, anchorPoint, absolutePosition,
  absoluteAnchorPoint, zIndex and clipsDescendants are redefined as read-only: an
  assignment to one of them changes nothing and, the modules being strict code, throws
  a TypeError.
\<close>

record UIObject =
  name :: string
  ctx :: "cref option"
  parent :: "ref option"
  children :: "ref list"
  absolutePosition :: Vector2
  absoluteSize :: Vector2
  absoluteAnchorPoint :: Vector2
  absolutePaddingLeft :: real
  absolutePaddingTop :: real
  absolutePaddingRight :: real
  absolutePaddingBottom :: real
  visibleOnScreen :: bool
  zIndex :: real
  clipsDescendants :: bool
  position :: SDim2
  size_dim :: SDim2
  anchorPoint :: SDim2
  visible :: bool
  style :: UIStyle
  styles :: "UIStyle list"
  styleTriggersLayout :: "(string \<times> style_value option) list"
  layout_fn :: layout_kind
  writeProtected :: bool

definition UIObject_new :: UIObject where
  "UIObject_new = \<lparr>name = ''UIObject'', ctx = None, parent = None, children = [],
     absolutePosition = Vector2_new, absoluteSize = Vector2_new,
     absoluteAnchorPoint = Vector2_new,
     absolutePaddingLeft = 0, absolutePaddingTop = 0, absolutePaddingRight = 0,
     absolutePaddingBottom = 0,
     visibleOnScreen = True, zIndex = 1, clipsDescendants = False,
     position = SDim2_new, size_dim = SDim2_new, anchorPoint = SDim2_new, visible = True,
     style = UIStyle_new, styles = [],
     styleTriggersLayout = [(''paddingLeft'', None), (''paddingTop'', None),
       (''paddingRight'', None), (''paddingBottom'', None)],
     layout_fn = DefaultLayout, writeProtected = False\<rparr>"

definition Frame_new :: UIObject where
  "Frame_new = UIObject_new\<lparr>name := ''Frame''\<rparr>"

text \<open>The text and the shaped paragraph of a TextLabel belong to the text backend and are not stored.\<close>

definition TextLabel_new :: UIObject where
  "TextLabel_new = Frame_new\<lparr>name := ''TextLabel'',
     styleTriggersLayout := styleTriggersLayout Frame_new @
       [(''textSize'', None), (''textAlign'', None), (''verticalTextAlign'', None)],
     layout_fn := TextLabelLayout\<rparr>"

text \<open>\<open>get computedStyle()\<close>: \<open>UIStyle.merge([UIStyle.default, ...this.styles, this.style])\<close>.\<close>

definition computedStyle :: "UIObject \<Rightarrow> UIStyle" where
  "computedStyle obj = merge ([UIStyle_default] @ styles obj @ [style obj])"

text \<open>
  A context: its relayout list, its root, its \<open>size\<close> (\<open>size_vec\<close>) and the pixel size
  of its canvas. The drawing surface belongs to the graphics backend.
\<close>

record Context =
  relayout :: "ref list"
  root :: ref
  size_vec :: Vector2
  canvasWidth :: int
  canvasHeight :: int

text \<open>
  What a traversal does that is seen from outside: the style sweep entering a node,
  the draw traversal entering a node, and a call of the node's \<open>paint\<close>.
\<close>

datatype event = SweepVisit ref | DrawVisit ref | Paint ref

record world =
  nodes :: "ref \<Rightarrow> UIObject"
  contexts :: "cref \<Rightarrow> Context"
  trace :: "event list"

text \<open>
  A thrown exception leaves the store as it is at the throw, so an operation returns
  either the error with that store or the store it finishes with. \<open>TypeError\<close>: a
  property of \<open>null\<close> is read, or a read-only property is assigned (the module is
  strict). \<open>RangeError\<close>: the call stack is exhausted.
\<close>

datatype error = TypeError | RangeError | Error string

type_synonym outcome = "(error \<times> world) + world"
type_synonym action = "world \<Rightarrow> outcome"

definition state_of :: "outcome \<Rightarrow> world" where
  "state_of r = (case r of Inl (e, w) \<Rightarrow> w | Inr w \<Rightarrow> w)"

definition returns :: "outcome \<Rightarrow> bool" where
  "returns r = (case r of Inl e \<Rightarrow> False | Inr w \<Rightarrow> True)"

definition seq :: "action \<Rightarrow> action \<Rightarrow> action" where
  "seq f g w = (case f w of Inl e \<Rightarrow> Inl e | Inr w' \<Rightarrow> g w')"

fun forEach :: "('a \<Rightarrow> action) \<Rightarrow> 'a list \<Rightarrow> action" where
  "forEach f [] w = Inr w"
| "forEach f (a # as) w = (case f a w of Inl e \<Rightarrow> Inl e | Inr w' \<Rightarrow> forEach f as w')"

definition upd_node :: "ref \<Rightarrow> (UIObject \<Rightarrow> UIObject) \<Rightarrow> world \<Rightarrow> world" where
  "upd_node n f w = w\<lparr>nodes := (nodes w)(n := f (nodes w n))\<rparr>"

definition upd_context :: "cref \<Rightarrow> (Context \<Rightarrow> Context) \<Rightarrow> world \<Rightarrow> world" where
  "upd_context c f w = w\<lparr>contexts := (contexts w)(c := f (contexts w c))\<rparr>"

definition emit :: "event \<Rightarrow> world \<Rightarrow> world" where
  "emit e w = w\<lparr>trace := trace w @ [e]\<rparr>"

text \<open>
  \<open>new Context(canvas)\<close>, with \<open>c\<close> and \<open>r\<close> the addresses of the new context and of
  its root, and the canvas's width and height.
\<close>

definition Context_new :: "cref \<Rightarrow> ref \<Rightarrow> int \<Rightarrow> int \<Rightarrow> world \<Rightarrow> world" where
  "Context_new c r width height w =
     w\<lparr>nodes := (nodes w)(r := UIObject_new\<lparr>name := ''Root'', ctx := Some c,
            layout_fn := RootLayout, writeProtected := True\<rparr>),
       contexts := (contexts w)(c := \<lparr>relayout = [], root = r,
            size_vec = \<lparr>vx = of_int width, vy = of_int height\<rparr>,
            canvasWidth = width, canvasHeight = height\<rparr>)\<rparr>"

section \<open>Scheduling (Context._scheduleLayout, the property setters, the size setter)\<close>

text \<open>
  \<open>_scheduleLayout(object)\<close> of context \<open>c\<close>:
  \<open>if (object._context === this && object.parent && object.visible &&
       !this.relayout.includes(object)) this.relayout.push(object)\<close>.
\<close>

definition scheduleLayout :: "cref \<Rightarrow> ref \<Rightarrow> world \<Rightarrow> world" where
  "scheduleLayout c object w =
     (if ctx (nodes w object) = Some c \<and> parent (nodes w object) \<noteq> None
         \<and> visible (nodes w object) \<and> object \<notin> set (relayout (contexts w c))
      then upd_context c (\<lambda>k. k\<lparr>relayout := relayout k @ [object]\<rparr>) w
      else w)"

text \<open>
  \<open>Array.prototype.splice(start, 1)\<close>: a negative start counts from the end, so
  \<open>splice(-1, 1)\<close>, which the parent setter runs when \<open>indexOf\<close> finds nothing,
  removes the last element.
\<close>

definition splice1 :: "'a list \<Rightarrow> int \<Rightarrow> 'a list" where
  "splice1 xs start =
     (let len = int (length xs);
          s = (if start < 0 then max (len + start) 0 else min start len)
      in take (nat s) xs @ drop (nat s + 1) xs)"

text \<open>
  The parent setter of class Node. Lines 690 to 693, run when the node has a parent:
  the node leaves the children of its parent, and the parent is scheduled.
\<close>

definition leave_parent :: "ref \<Rightarrow> action" where
  "leave_parent this w =
     (case parent (nodes w this) of
        None \<Rightarrow> Inr w
      | Some p \<Rightarrow>
          (let w1 = upd_node p
                 (\<lambda>obj. obj\<lparr>children := splice1 (children obj) (indexOf (children obj) this)\<rparr>) w
           in case ctx (nodes w1 p) of
                None \<Rightarrow> Inl (TypeError, w1)
              | Some c \<Rightarrow> Inr (scheduleLayout c p w1)))"

text \<open>Lines 694 to 702: the node is detached (\<open>null\<close>) or joins the new parent.\<close>

definition join_parent :: "ref \<Rightarrow> ref option \<Rightarrow> action" where
  "join_parent this newParent w =
     (case newParent of
        None \<Rightarrow> Inr (upd_node this (\<lambda>obj. obj\<lparr>ctx := None, parent := None\<rparr>) w)
      | Some np \<Rightarrow>
          (let w1 = upd_node this (\<lambda>obj. obj\<lparr>ctx := ctx (nodes w np)\<rparr>) w;
               w2 = upd_node np (\<lambda>obj. obj\<lparr>children := children obj @ [this]\<rparr>) w1
           in case ctx (nodes w2 this) of
                None \<Rightarrow> Inl (TypeError, w2)
              | Some c \<Rightarrow>
                  Inr (upd_node this (\<lambda>obj. obj\<lparr>parent := Some np\<rparr>)
                         (scheduleLayout c this w2))))"

definition set_parent :: "ref \<Rightarrow> ref option \<Rightarrow> action" where
  "set_parent this newParent w =
     (if writeProtected (nodes w this) then Inl (TypeError, w)
      else if newParent = parent (nodes w this) then Inr w
      else seq (leave_parent this) (join_parent this newParent) w)"

text \<open>
  A property made by \<open>_propertyTriggersLayout\<close>: the setter stores the value, then
  \<open>if (this._context) this._context._scheduleLayout(this)\<close>.
\<close>

definition set_property :: "(UIObject \<Rightarrow> UIObject) \<Rightarrow> ref \<Rightarrow> action" where
  "set_property store this w =
     (if writeProtected (nodes w this) then Inl (TypeError, w)
      else
        (let w1 = upd_node this store w
         in case ctx (nodes w1 this) of
              None \<Rightarrow> Inr w1
            | Some c \<Rightarrow> Inr (scheduleLayout c this w1)))"

definition set_position :: "ref \<Rightarrow> SDim2 \<Rightarrow> action" where
  "set_position this v = set_property (\<lambda>obj. obj\<lparr>position := v\<rparr>) this"

definition set_size :: "ref \<Rightarrow> SDim2 \<Rightarrow> action" where
  "set_size this v = set_property (\<lambda>obj. obj\<lparr>size_dim := v\<rparr>) this"

definition set_anchorPoint :: "ref \<Rightarrow> SDim2 \<Rightarrow> action" where
  "set_anchorPoint this v = set_property (\<lambda>obj. obj\<lparr>anchorPoint := v\<rparr>) this"

definition set_visible :: "ref \<Rightarrow> bool \<Rightarrow> action" where
  "set_visible this v = set_property (\<lambda>obj. obj\<lparr>visible := v\<rparr>) this"

text \<open>
  The \<open>size\<close> setter of a context (a resize): the new size is stored, the canvas takes
  the pixel size \<open>Math.floor(size * window.devicePixelRatio)\<close>, the surface is made
  anew, and \<open>this.relayout.push(this.root)\<close>.
\<close>

definition set_context_size :: "real \<Rightarrow> cref \<Rightarrow> Vector2 \<Rightarrow> world \<Rightarrow> world" where
  "set_context_size devicePixelRatio c newValue w =
     upd_context c (\<lambda>k. k\<lparr>size_vec := newValue,
         canvasWidth := \<lfloor>vx newValue * devicePixelRatio\<rfloor>,
         canvasHeight := \<lfloor>vy newValue * devicePixelRatio\<rfloor>,
         relayout := relayout k @ [root k]\<rparr>) w"

section \<open>Layout (function layout, the root's layout, TextLabel's layout)\<close>

definition modify :: "ref \<Rightarrow> (UIObject \<Rightarrow> UIObject) \<Rightarrow> action" where
  "modify n f w = Inr (upd_node n f w)"

text \<open>Reading \<open>.scale\<close> and \<open>.offset\<close> of a padding of the computed style: a TypeError on \<open>null\<close>.\<close>

definition read_dim :: "SDim option \<Rightarrow> (SDim \<Rightarrow> action) \<Rightarrow> action" where
  "read_dim d f w = (case d of None \<Rightarrow> Inl (TypeError, w) | Some v \<Rightarrow> f v w)"

text \<open>Lines 460 to 463: the node's own absolute padding.\<close>

definition layout_padding :: "ref \<Rightarrow> UIStyle \<Rightarrow> real \<Rightarrow> real \<Rightarrow> action" where
  "layout_padding this cs absoluteSizeX absoluteSizeY =
     seq (read_dim (paddingLeft cs) (\<lambda>d. modify this
            (\<lambda>obj. obj\<lparr>absolutePaddingLeft := scale d * absoluteSizeX + offset d\<rparr>)))
    (seq (read_dim (paddingTop cs) (\<lambda>d. modify this
            (\<lambda>obj. obj\<lparr>absolutePaddingTop := scale d * absoluteSizeY + offset d\<rparr>)))
    (seq (read_dim (paddingRight cs) (\<lambda>d. modify this
            (\<lambda>obj. obj\<lparr>absolutePaddingRight := scale d * absoluteSizeX + offset d\<rparr>)))
         (read_dim (paddingBottom cs) (\<lambda>d. modify this
            (\<lambda>obj. obj\<lparr>absolutePaddingBottom := scale d * absoluteSizeY + offset d\<rparr>)))))"

text \<open>
  Lines 469 to 480, run when \<open>updatePosition\<close> holds. The parent's size, position and
  padding are read from the parent object when the line runs.
\<close>

definition layout_position :: "ref \<Rightarrow> ref \<Rightarrow> real \<Rightarrow> real \<Rightarrow> action" where
  "layout_position this p absoluteSizeX absoluteSizeY w =
     (let anchor = anchorPoint (nodes w this);
          pos = position (nodes w this);
          absoluteAnchorPointX = scaleX anchor * absoluteSizeX + offsetX anchor;
          absoluteAnchorPointY = scaleY anchor * absoluteSizeY + offsetY anchor;
          w1 = upd_node this (\<lambda>obj. obj\<lparr>absoluteAnchorPoint :=
                 \<lparr>vx = absoluteAnchorPointX, vy = absoluteAnchorPointY\<rparr>\<rparr>) w;
          w2 = upd_node this (\<lambda>obj. obj\<lparr>absolutePosition := (absolutePosition obj)\<lparr>vx :=
                 scaleX pos * vx (absoluteSize (nodes w1 p)) + offsetX pos - absoluteAnchorPointX
                 + vx (absolutePosition (nodes w1 p)) + absolutePaddingLeft (nodes w1 p)\<rparr>\<rparr>) w1;
          w3 = upd_node this (\<lambda>obj. obj\<lparr>absolutePosition := (absolutePosition obj)\<lparr>vy :=
                 scaleY pos * vy (absoluteSize (nodes w2 p)) + offsetY pos - absoluteAnchorPointY
                 + vy (absolutePosition (nodes w2 p)) + absolutePaddingTop (nodes w2 p)\<rparr>\<rparr>) w2
      in Inr w3)"

text \<open>Lines 483 and 484: \<open>visibleOnScreen\<close>.\<close>

definition layout_visibility :: "ref \<Rightarrow> real \<Rightarrow> real \<Rightarrow> action" where
  "layout_visibility this absoluteSizeX absoluteSizeY w =
     (case ctx (nodes w this) of
        None \<Rightarrow> Inl (TypeError, w)
      | Some c \<Rightarrow>
          (let contextSize = size_vec (contexts w c);
               ap = absolutePosition (nodes w this)
           in Inr (upd_node this (\<lambda>obj. obj\<lparr>visibleOnScreen :=
                (vx ap < vx contextSize \<and> vy ap < vy contextSize
                 \<and> vx ap + absoluteSizeX > 0 \<and> vy ap + absoluteSizeY > 0)\<rparr>) w)))"

text \<open>Lines 451 to 484: what \<open>layout\<close> does to the node itself.\<close>

definition layout_own :: "ref \<Rightarrow> bool \<Rightarrow> action" where
  "layout_own this updatePosition w =
     (case parent (nodes w this) of
        None \<Rightarrow> Inl (TypeError, w)
      | Some p \<Rightarrow>
          (let sz = size_dim (nodes w this);
               cs = computedStyle (nodes w this);
               absoluteSizeX = scaleX sz * vx (absoluteSize (nodes w p)) + offsetX sz
                 - absolutePaddingLeft (nodes w p) - absolutePaddingRight (nodes w p);
               absoluteSizeY = scaleY sz * vy (absoluteSize (nodes w p)) + offsetY sz
                 - absolutePaddingTop (nodes w p) - absolutePaddingBottom (nodes w p)
           in seq (layout_padding this cs absoluteSizeX absoluteSizeY)
             (seq (modify this (\<lambda>obj. obj\<lparr>absoluteSize :=
                      \<lparr>vx = absoluteSizeX, vy = absoluteSizeY\<rparr>\<rparr>))
             (seq (if updatePosition
                   then layout_position this p absoluteSizeX absoluteSizeY else Inr)
                  (layout_visibility this absoluteSizeX absoluteSizeY))) w))"

text \<open>
  Lines 486 to 488 and the same loop of the root: \<open>child.layout(flag)\<close> for every
  visible child. \<open>call\<close> runs the method stored in the child's \<open>layout\<close> property.
\<close>

definition layout_children :: "(ref \<Rightarrow> bool \<Rightarrow> action) \<Rightarrow> ref \<Rightarrow> bool \<Rightarrow> action" where
  "layout_children call this flag w =
     forEach (\<lambda>child w'. if visible (nodes w' child) then call child flag w' else Inr w')
       (children (nodes w this)) w"

text \<open>
  \<open>function layout(updatePosition, updateChildPosition)\<close>; an argument left out
  (\<open>undefined\<close>) is \<open>None\<close>, and the children get \<open>updateChildPosition !== false\<close>.
\<close>

definition layout :: "(ref \<Rightarrow> bool \<Rightarrow> action) \<Rightarrow> ref \<Rightarrow> bool \<Rightarrow> bool option \<Rightarrow> action" where
  "layout call this updatePosition updateChildPosition =
     seq (layout_own this updatePosition)
         (layout_children call this (updateChildPosition \<noteq> Some False))"

text \<open>The layout of a context's root: \<open>this.absoluteSize = this._context.size\<close>, then the children.\<close>

definition root_layout :: "(ref \<Rightarrow> bool \<Rightarrow> action) \<Rightarrow> ref \<Rightarrow> action" where
  "root_layout call this w =
     (case ctx (nodes w this) of
        None \<Rightarrow> Inl (TypeError, w)
      | Some c \<Rightarrow>
          seq (modify this (\<lambda>obj. obj\<lparr>absoluteSize := size_vec (contexts w c)\<rparr>))
              (layout_children call this True) w)"

text \<open>
  The method call \<open>object.layout(updatePosition)\<close>. \<open>depth\<close> is the call depth still
  available; at 0 the engine throws a RangeError. TextLabel's layout is
  \<open>layout.call(this, updatePosition)\<close> followed by the shaping of its text, which
  touches the paragraph only.
\<close>

primrec call_layout :: "nat \<Rightarrow> ref \<Rightarrow> bool \<Rightarrow> action" where
  "call_layout 0 = (\<lambda>this updatePosition w. Inl (RangeError, w))"
| "call_layout (Suc depth) = (\<lambda>this updatePosition w.
     case layout_fn (nodes w this) of
       DefaultLayout \<Rightarrow> layout (call_layout depth) this updatePosition None w
     | RootLayout \<Rightarrow> root_layout (call_layout depth) this w
     | TextLabelLayout \<Rightarrow> layout (call_layout depth) this updatePosition None w)"

section \<open>The frame: style sweep, relayout, draw\<close>

text \<open>
  \<open>computedStyle[property] !== value\<close>: numbers are compared by value, objects
  (SDim, Color, Paint) by reference. Values are stored here without their identity,
  so whether two object values are the same object is the parameter \<open>same_object\<close>.
\<close>

definition strict_equal ::
  "(style_value \<Rightarrow> style_value \<Rightarrow> bool) \<Rightarrow> style_value option \<Rightarrow> style_value option \<Rightarrow> bool" where
  "strict_equal same_object a b =
     (case (a, b) of
        (None, None) \<Rightarrow> True
      | (Some (NumberValue m), Some (NumberValue n)) \<Rightarrow> m = n
      | (Some (NumberValue m), Some v) \<Rightarrow> False
      | (Some u, Some (NumberValue n)) \<Rightarrow> False
      | (Some u, Some v) \<Rightarrow> same_object u v
      | _ \<Rightarrow> False)"

text \<open>Lines 937 to 941 of \<open>iterativeCheckForStyleChanges\<close>.\<close>

definition check_style :: "(style_value \<Rightarrow> style_value \<Rightarrow> bool) \<Rightarrow> ref \<Rightarrow> action" where
  "check_style same_object this w =
     (let cs = computedStyle (nodes w this);
          triggers = styleTriggersLayout (nodes w this)
      in seq (\<lambda>w'. if list_ex (\<lambda>(p, v). \<not> strict_equal same_object (style_get cs p) v) triggers
                    then (case ctx (nodes w' this) of
                            None \<Rightarrow> Inl (TypeError, w')
                          | Some c \<Rightarrow> Inr (scheduleLayout c this w'))
                    else Inr w')
             (modify this (\<lambda>obj. obj\<lparr>styleTriggersLayout :=
                 map (\<lambda>(p, v). (p, style_get cs p)) triggers\<rparr>)) w)"

primrec iterativeCheckForStyleChanges ::
  "(style_value \<Rightarrow> style_value \<Rightarrow> bool) \<Rightarrow> nat \<Rightarrow> ref \<Rightarrow> action" where
  "iterativeCheckForStyleChanges same_object 0 = (\<lambda>this w. Inl (RangeError, w))"
| "iterativeCheckForStyleChanges same_object (Suc depth) = (\<lambda>this w0.
     let w = emit (SweepVisit this) w0 in
     if visible (nodes w this) then
       if visibleOnScreen (nodes w this) then
         seq (check_style same_object this)
             (\<lambda>w'. forEach (iterativeCheckForStyleChanges same_object depth)
                      (children (nodes w' this)) w') w
       else if \<not> clipsDescendants (nodes w this) then
         forEach (iterativeCheckForStyleChanges same_object depth) (children (nodes w this)) w
       else Inr w
     else Inr w)"

text \<open>
  \<open>iterativeDraw\<close>. \<open>[...children].sort((a, b) => a.zIndex - b.zIndex)\<close> is a stable
  sort by ascending zIndex.
\<close>

primrec iterativeDraw :: "nat \<Rightarrow> ref \<Rightarrow> action" where
  "iterativeDraw 0 = (\<lambda>this w. Inl (RangeError, w))"
| "iterativeDraw (Suc depth) = (\<lambda>this w0.
     let w = emit (DrawVisit this) w0 in
     if visible (nodes w this) then
       if visibleOnScreen (nodes w this) then
         seq (\<lambda>w'. Inr (emit (Paint this) w'))
             (\<lambda>w'. forEach (iterativeDraw depth)
                      (sort_key (\<lambda>c. zIndex (nodes w' c)) (children (nodes w' this))) w') w
       else if \<not> clipsDescendants (nodes w this) then
         forEach (iterativeDraw depth)
           (sort_key (\<lambda>c. zIndex (nodes w c)) (children (nodes w this))) w
       else Inr w
     else Inr w)"

text \<open>
  The body of the loop of \<open>update\<close> for one registered context: the style sweep from
  the root, \<open>object.layout(true)\<close> for every entry of the relayout list, the draw
  traversal from the root, and \<open>context.relayout.length = 0\<close>.
\<close>

definition update_context ::
  "(style_value \<Rightarrow> style_value \<Rightarrow> bool) \<Rightarrow> nat \<Rightarrow> cref \<Rightarrow> action" where
  "update_context same_object depth c =
     seq (\<lambda>w. iterativeCheckForStyleChanges same_object depth (root (contexts w c)) w)
    (seq (\<lambda>w. forEach (\<lambda>object. call_layout depth object True) (relayout (contexts w c)) w)
    (seq (\<lambda>w. iterativeDraw depth (root (contexts w c)) w)
         (\<lambda>w. Inr (upd_context c (\<lambda>k. k\<lparr>relayout := []\<rparr>) w))))"

section \<open>The static arithmetic of the value objects, on untyped arguments\<close>

text \<open>
  \<open>Vector2.add\<close> and its siblings take whatever the caller passes, so their arguments
  are JavaScript values. The values modelled: \<open>undefined\<close>, \<open>null\<close>, booleans, numbers
  (finite ones as reals, NaN and the two infinities; zero has no sign here), and objects:
  instances of Vector2, SDim and SDim2 and plain objects, with their data properties.
  Strings are left out as arguments; \<open>+\<close> on an object yields a string that contains
  \<open>[object Object]\<close>, which is \<open>ObjectString\<close>. None of these classes defines
  \<open>valueOf\<close> or \<open>toString\<close>.
\<close>

datatype class_name = Vector2_class | SDim_class | SDim2_class | Object_class

datatype jsval =
    Undefined | Null | Boolean bool
  | Number real | NaN | PosInfinity | NegInfinity
  | ObjectString
  | Instance class_name "(string \<times> jsval) list"

text \<open>A typed value object as a JavaScript value.\<close>

definition Vector2_value :: "Vector2 \<Rightarrow> jsval" where
  "Vector2_value v = Instance Vector2_class [(''x'', Number (vx v)), (''y'', Number (vy v))]"

definition SDim_value :: "SDim \<Rightarrow> jsval" where
  "SDim_value d = Instance SDim_class [(''scale'', Number (scale d)), (''offset'', Number (offset d))]"

definition SDim2_value :: "SDim2 \<Rightarrow> jsval" where
  "SDim2_value d = Instance SDim2_class
     [(''scaleX'', Number (scaleX d)), (''offsetX'', Number (offsetX d)),
      (''scaleY'', Number (scaleY d)), (''offsetY'', Number (offsetY d))]"

text \<open>The conversions \<open>ToNumber\<close> and \<open>ToBoolean\<close>, the function \<open>isNaN\<close> and the operator \<open>!\<close>.\<close>

fun ToNumber :: "jsval \<Rightarrow> jsval" where
  "ToNumber Undefined = NaN"
| "ToNumber Null = Number 0"
| "ToNumber (Boolean b) = Number (if b then 1 else 0)"
| "ToNumber (Number r) = Number r"
| "ToNumber NaN = NaN"
| "ToNumber PosInfinity = PosInfinity"
| "ToNumber NegInfinity = NegInfinity"
| "ToNumber ObjectString = NaN"
| "ToNumber (Instance c props) = NaN"

fun ToBoolean :: "jsval \<Rightarrow> bool" where
  "ToBoolean Undefined = False"
| "ToBoolean Null = False"
| "ToBoolean (Boolean b) = b"
| "ToBoolean (Number r) = (r \<noteq> 0)"
| "ToBoolean NaN = False"
| "ToBoolean PosInfinity = True"
| "ToBoolean NegInfinity = True"
| "ToBoolean ObjectString = True"
| "ToBoolean (Instance c props) = True"

definition isNaN :: "jsval \<Rightarrow> bool" where
  "isNaN v = (ToNumber v = NaN)"

definition js_not :: "jsval \<Rightarrow> jsval" where
  "js_not v = Boolean (\<not> ToBoolean v)"

text \<open>
  \<open>v instanceof C\<close>: an object made by \<open>new C\<close> is an instance of \<open>C\<close>, every object is
  an instance of \<open>Object\<close>, and no primitive value is an instance of anything.
\<close>

fun instanceof :: "jsval \<Rightarrow> class_name \<Rightarrow> bool" where
  "instanceof (Instance c props) k = (c = k \<or> k = Object_class)"
| "instanceof v k = False"

text \<open>Arithmetic on numbers (the results of \<open>ToNumber\<close>).\<close>

fun negate :: "jsval \<Rightarrow> jsval" where
  "negate (Number r) = Number (- r)"
| "negate PosInfinity = NegInfinity"
| "negate NegInfinity = PosInfinity"
| "negate v = NaN"

fun num_add :: "jsval \<Rightarrow> jsval \<Rightarrow> jsval" where
  "num_add (Number a) (Number b) = Number (a + b)"
| "num_add (Number a) PosInfinity = PosInfinity"
| "num_add (Number a) NegInfinity = NegInfinity"
| "num_add PosInfinity (Number b) = PosInfinity"
| "num_add NegInfinity (Number b) = NegInfinity"
| "num_add PosInfinity PosInfinity = PosInfinity"
| "num_add NegInfinity NegInfinity = NegInfinity"
| "num_add a b = NaN"

fun num_mul :: "jsval \<Rightarrow> jsval \<Rightarrow> jsval" where
  "num_mul (Number a) (Number b) = Number (a * b)"
| "num_mul (Number a) PosInfinity = (if a = 0 then NaN else if a > 0 then PosInfinity else NegInfinity)"
| "num_mul (Number a) NegInfinity = (if a = 0 then NaN else if a > 0 then NegInfinity else PosInfinity)"
| "num_mul PosInfinity (Number b) = (if b = 0 then NaN else if b > 0 then PosInfinity else NegInfinity)"
| "num_mul NegInfinity (Number b) = (if b = 0 then NaN else if b > 0 then NegInfinity else PosInfinity)"
| "num_mul PosInfinity PosInfinity = PosInfinity"
| "num_mul PosInfinity NegInfinity = NegInfinity"
| "num_mul NegInfinity PosInfinity = NegInfinity"
| "num_mul NegInfinity NegInfinity = PosInfinity"
| "num_mul a b = NaN"

fun num_div :: "jsval \<Rightarrow> jsval \<Rightarrow> jsval" where
  "num_div (Number a) (Number b) =
     (if b = 0 then (if a = 0 then NaN else if a > 0 then PosInfinity else NegInfinity)
      else Number (a / b))"
| "num_div (Number a) PosInfinity = Number 0"
| "num_div (Number a) NegInfinity = Number 0"
| "num_div PosInfinity (Number b) = (if b \<ge> 0 then PosInfinity else NegInfinity)"
| "num_div NegInfinity (Number b) = (if b \<ge> 0 then NegInfinity else PosInfinity)"
| "num_div a b = NaN"

text \<open>
  The operators. \<open>+\<close> concatenates strings when an operand is an object or a string;
  \<open>-\<close>, \<open>*\<close> and \<open>/\<close> convert both operands to numbers.
\<close>

fun is_object_or_string :: "jsval \<Rightarrow> bool" where
  "is_object_or_string ObjectString = True"
| "is_object_or_string (Instance c props) = True"
| "is_object_or_string v = False"

definition js_add :: "jsval \<Rightarrow> jsval \<Rightarrow> jsval" where
  "js_add a b = (if is_object_or_string a \<or> is_object_or_string b then ObjectString
                 else num_add (ToNumber a) (ToNumber b))"

definition js_sub :: "jsval \<Rightarrow> jsval \<Rightarrow> jsval" where
  "js_sub a b = num_add (ToNumber a) (negate (ToNumber b))"

definition js_mul :: "jsval \<Rightarrow> jsval \<Rightarrow> jsval" where
  "js_mul a b = num_mul (ToNumber a) (ToNumber b)"

definition js_div :: "jsval \<Rightarrow> jsval \<Rightarrow> jsval" where
  "js_div a b = num_div (ToNumber a) (ToNumber b)"

text \<open>A thrown error or a value; \<open>and_then\<close> runs the rest when nothing was thrown.\<close>

type_synonym result = "error + jsval"

definition and_then :: "result \<Rightarrow> (jsval \<Rightarrow> result) \<Rightarrow> result" where
  "and_then r f = (case r of Inl e \<Rightarrow> Inl e | Inr v \<Rightarrow> f v)"

text \<open>
  The constructors: a parameter with a default takes it when the argument is
  \<open>undefined\<close>; an argument that \<open>isNaN\<close> rejects throws.
\<close>

definition default_to :: "jsval \<Rightarrow> jsval \<Rightarrow> jsval" where
  "default_to d v = (if v = Undefined then d else v)"

definition Vector2_ctor :: "jsval \<Rightarrow> jsval \<Rightarrow> result" where
  "Vector2_ctor x0 y0 =
     (let x = default_to (Number 0) x0; y = default_to (Number 0) y0
      in if isNaN x then Inl (Error ''x is NaN'')
         else if isNaN y then Inl (Error ''y is NaN'')
         else Inr (Instance Vector2_class [(''x'', x), (''y'', y)]))"

definition SDim_ctor :: "jsval \<Rightarrow> jsval \<Rightarrow> result" where
  "SDim_ctor scale0 offset0 =
     (let s = default_to (Number 0) scale0; off = default_to (Number 0) offset0
      in if isNaN s then Inl (Error ''scale is NaN'')
         else if isNaN off then Inl (Error ''offset is NaN'')
         else Inr (Instance SDim_class [(''scale'', s), (''offset'', off)]))"

definition SDim2_ctor :: "jsval \<Rightarrow> jsval \<Rightarrow> jsval \<Rightarrow> jsval \<Rightarrow> result" where
  "SDim2_ctor scaleX0 offsetX0 sY oY =
     (let sX = default_to (Number 0) scaleX0; oX = default_to (Number 0) offsetX0
      in if isNaN sX then Inl (Error ''scaleX is NaN'')
         else if isNaN oX then Inl (Error ''offsetX is NaN'')
         else if sY \<noteq> Undefined \<and> isNaN sY then Inl (Error ''scaleY is NaN'')
         else if oY \<noteq> Undefined \<and> isNaN oY then Inl (Error ''offsetY is NaN'')
         else Inr (Instance SDim2_class
           [(''scaleX'', if oY \<noteq> Undefined then sX else Number 0),
            (''offsetX'', if oY \<noteq> Undefined then oX else sX),
            (''scaleY'', if oY \<noteq> Undefined then sY else Number 0),
            (''offsetY'', if oY \<noteq> Undefined then oY else oX)]))"

text \<open>
  Reading one of the properties the static methods read (x, y, scale, offset, scaleX,
  offsetX, scaleY, offsetY): a TypeError on \<open>undefined\<close> and \<open>null\<close>, \<open>undefined\<close> when
  the value has no such property. An SDim2 has the getters \<open>x\<close> and \<open>y\<close>, which build
  an SDim.
\<close>

definition own_property :: "(string \<times> jsval) list \<Rightarrow> string \<Rightarrow> jsval" where
  "own_property props p = (case map_of props p of None \<Rightarrow> Undefined | Some v \<Rightarrow> v)"

fun get :: "jsval \<Rightarrow> string \<Rightarrow> result" where
  "get Undefined p = Inl TypeError"
| "get Null p = Inl TypeError"
| "get (Instance c props) p =
     (if c = SDim2_class \<and> p = ''x'' then SDim_ctor (own_property props ''scaleX'') (own_property props ''offsetX'')
      else if c = SDim2_class \<and> p = ''y'' then SDim_ctor (own_property props ''scaleY'') (own_property props ''offsetY'')
      else Inr (own_property props p))"
| "get v p = Inr Undefined"

text \<open>
  The static methods. The guard \<open>!a instanceof Vector2\<close> is read by JavaScript as
  \<open>(!a) instanceof Vector2\<close>.
\<close>

definition Vector2_add :: "jsval \<Rightarrow> jsval \<Rightarrow> result" where
  "Vector2_add a b =
     (if instanceof (js_not a) Vector2_class then Inl (Error ''a is not Vector2'')
      else if instanceof (js_not b) Vector2_class then Inl (Error ''b is not Vector2'')
      else and_then (get a ''x'') (\<lambda>ax. and_then (get b ''x'') (\<lambda>bx.
           and_then (get a ''y'') (\<lambda>ay. and_then (get b ''y'') (\<lambda>by.
           Vector2_ctor (js_add ax bx) (js_add ay by))))))"

definition Vector2_subtract :: "jsval \<Rightarrow> jsval \<Rightarrow> result" where
  "Vector2_subtract a b =
     (if instanceof (js_not a) Vector2_class then Inl (Error ''a is not Vector2'')
      else if instanceof (js_not b) Vector2_class then Inl (Error ''b is not Vector2'')
      else and_then (get a ''x'') (\<lambda>ax. and_then (get b ''x'') (\<lambda>bx.
           and_then (get a ''y'') (\<lambda>ay. and_then (get b ''y'') (\<lambda>by.
           Vector2_ctor (js_sub ax bx) (js_sub ay by))))))"

definition Vector2_multiply :: "jsval \<Rightarrow> jsval \<Rightarrow> result" where
  "Vector2_multiply a b =
     (if instanceof (js_not a) Vector2_class then Inl (Error ''a is not Vector2'')
      else if instanceof (js_not b) Vector2_class \<or> isNaN b
        then Inl (Error ''b is not Vector2 or number'')
      else if instanceof b Vector2_class
        then and_then (get a ''x'') (\<lambda>ax. and_then (get b ''x'') (\<lambda>bx.
             and_then (get a ''y'') (\<lambda>ay. and_then (get b ''y'') (\<lambda>by.
             Vector2_ctor (js_mul ax bx) (js_mul ay by)))))
      else and_then (get a ''x'') (\<lambda>ax. and_then (get a ''y'') (\<lambda>ay.
             Vector2_ctor (js_mul ax b) (js_mul ay b))))"

definition Vector2_divide :: "jsval \<Rightarrow> jsval \<Rightarrow> result" where
  "Vector2_divide a b =
     (if instanceof (js_not a) Vector2_class then Inl (Error ''a is not Vector2'')
      else if instanceof (js_not b) Vector2_class \<or> isNaN b
        then Inl (Error ''b is not Vector2 or number'')
      else if instanceof b Vector2_class
        then and_then (get a ''x'') (\<lambda>ax. and_then (get b ''x'') (\<lambda>bx.
             and_then (get a ''y'') (\<lambda>ay. and_then (get b ''y'') (\<lambda>by.
             Vector2_ctor (js_div ax bx) (js_div ay by)))))
      else and_then (get a ''x'') (\<lambda>ax. and_then (get a ''y'') (\<lambda>ay.
             Vector2_ctor (js_div ax b) (js_div ay b))))"

definition SDim_add :: "jsval \<Rightarrow> jsval \<Rightarrow> result" where
  "SDim_add a b =
     (if instanceof (js_not a) SDim_class then Inl (Error ''a is not SDim'')
      else if instanceof (js_not b) SDim_class then Inl (Error ''b is not SDim'')
      else and_then (get a ''scale'') (\<lambda>asc. and_then (get b ''scale'') (\<lambda>bsc.
           and_then (get a ''offset'') (\<lambda>aoff. and_then (get b ''offset'') (\<lambda>boff.
           SDim_ctor (js_add asc bsc) (js_add aoff boff))))))"

definition SDim_subtract :: "jsval \<Rightarrow> jsval \<Rightarrow> result" where
  "SDim_subtract a b =
     (if instanceof (js_not a) SDim_class then Inl (Error ''a is not SDim'')
      else if instanceof (js_not b) SDim_class then Inl (Error ''b is not SDim'')
      else and_then (get a ''scale'') (\<lambda>asc. and_then (get b ''scale'') (\<lambda>bsc.
           and_then (get a ''offset'') (\<lambda>aoff. and_then (get b ''offset'') (\<lambda>boff.
           SDim_ctor (js_sub asc bsc) (js_sub aoff boff))))))"

text \<open>The four components of an SDim2 method, combined by \<open>op\<close> (\<open>+\<close> or \<open>-\<close>) in the order the source reads them.\<close>

definition SDim2_combine :: "(jsval \<Rightarrow> jsval \<Rightarrow> jsval) \<Rightarrow> jsval \<Rightarrow> jsval \<Rightarrow> result" where
  "SDim2_combine op a b =
     and_then (get a ''scaleX'') (\<lambda>a1. and_then (get b ''scaleX'') (\<lambda>b1.
     and_then (get a ''offsetX'') (\<lambda>a2. and_then (get b ''offsetX'') (\<lambda>b2.
     and_then (get a ''scaleY'') (\<lambda>a3. and_then (get b ''scaleY'') (\<lambda>b3.
     and_then (get a ''offsetY'') (\<lambda>a4. and_then (get b ''offsetY'') (\<lambda>b4.
     SDim2_ctor (op a1 b1) (op a2 b2) (op a3 b3) (op a4 b4)))))))))"

definition SDim2_add :: "jsval \<Rightarrow> jsval \<Rightarrow> result" where
  "SDim2_add a b =
     (if instanceof (js_not a) SDim2_class then Inl (Error ''a is not SDim2'')
      else if instanceof (js_not b) SDim2_class then Inl (Error ''b is not SDim2'')
      else SDim2_combine js_add a b)"

definition SDim2_subtract :: "jsval \<Rightarrow> jsval \<Rightarrow> result" where
  "SDim2_subtract a b =
     (if instanceof (js_not a) SDim2_class then Inl (Error ''a is not SDim2'')
      else if instanceof (js_not b) SDim2_class then Inl (Error ''b is not SDim2'')
      else SDim2_combine js_sub a b)"

section \<open>Predicates and scenes used in the statements\<close>

text \<open>
  The property the specification gives of the relayout list of context \<open>c\<close>: no entry
  twice, and every entry has a parent and is visible.
\<close>

definition relayout_ok :: "cref \<Rightarrow> world \<Rightarrow> bool" where
  "relayout_ok c w =
     (distinct (relayout (contexts w c))
      \<and> list_all (\<lambda>n. parent (nodes w n) \<noteq> None \<and> visible (nodes w n)) (relayout (contexts w c)))"

text \<open>
  A store in which nothing has been built: every node address holds what
  \<open>new UIObject()\<close> makes. \<open>stage\<close>: one context, at address 0, on a canvas of 800 by 600,
  with its root at node address 0.
\<close>

definition blank :: world where
  "blank = \<lparr>nodes = (\<lambda>n. UIObject_new),
     contexts = (\<lambda>c. \<lparr>relayout = [], root = 0, size_vec = Vector2_new,
        canvasWidth = 0, canvasHeight = 0\<rparr>),
     trace = []\<rparr>"

definition stage :: world where
  "stage = Context_new 0 0 800 600 blank"

text \<open>Node 2 is given the root as parent and then a size: it is in the relayout list.\<close>

definition queued :: world where
  "queued = state_of (set_size 2 (SDim2_fromOffset 100 100) (state_of (set_parent 2 (Some 0) stage)))"

text \<open>
  Nodes 2 and 3 as children of the root; node 3 as child of node 2, itself a child of the
  root. A \<open>script\<close> runs statements one after the other, each in the store the one before
  it left (also when that one threw).
\<close>

definition siblings :: world where
  "siblings = state_of (set_parent 3 (Some 0) (state_of (set_parent 2 (Some 0) stage)))"

definition nested :: world where
  "nested = state_of (set_parent 3 (Some 2) (state_of (set_parent 2 (Some 0) stage)))"

text \<open>
  Two more scenes for the parent setter. \<open>detached\<close>: with a second context (address 1,
  root at node 5), node 3 under node 2 under the root of context 0, and node 2 then
  detached; node 2 has no context any more. \<open>doubled\<close>: node 3 is given node 2 as parent
  twice while node 2 has no context (each attempt throws after the push into the
  children), then node 2 joins the root and node 3 joins node 2: node 2 lists node 3
  three times.
\<close>

definition script :: "action list \<Rightarrow> world \<Rightarrow> world" where
  "script as w = foldl (\<lambda>v a. state_of (a v)) w as"

definition detached :: world where
  "detached = script [set_parent 2 (Some 0), set_parent 3 (Some 2), set_parent 2 None]
     (Context_new 1 5 640 480 stage)"

definition doubled :: world where
  "doubled = script [set_parent 3 (Some 2), set_parent 3 (Some 2), set_parent 2 (Some 0),
     set_parent 3 (Some 2)] stage"

text \<open>
  What \<open>layout\<close> is to leave in node \<open>obj\<close>, laid out as \<open>this\<close> under parent \<open>p\<close> in
  store \<open>w\<close>: the absolute size and the four absolute paddings.
\<close>

definition sized :: "ref \<Rightarrow> ref \<Rightarrow> world \<Rightarrow> UIObject \<Rightarrow> bool" where
  "sized this p w obj =
    (\<exists>l t r b.
       paddingLeft (computedStyle (nodes w this)) = Some l
     \<and> paddingTop (computedStyle (nodes w this)) = Some t
     \<and> paddingRight (computedStyle (nodes w this)) = Some r
     \<and> paddingBottom (computedStyle (nodes w this)) = Some b
     \<and> absoluteSize obj =
         \<lparr>vx = scaleX (size_dim (nodes w this)) * vx (absoluteSize (nodes w p))
                + offsetX (size_dim (nodes w this))
                - absolutePaddingLeft (nodes w p) - absolutePaddingRight (nodes w p),
           vy = scaleY (size_dim (nodes w this)) * vy (absoluteSize (nodes w p))
                + offsetY (size_dim (nodes w this))
                - absolutePaddingTop (nodes w p) - absolutePaddingBottom (nodes w p)\<rparr>
     \<and> absolutePaddingLeft obj = scale l * vx (absoluteSize obj) + offset l
     \<and> absolutePaddingTop obj = scale t * vy (absoluteSize obj) + offset t
     \<and> absolutePaddingRight obj = scale r * vx (absoluteSize obj) + offset r
     \<and> absolutePaddingBottom obj = scale b * vy (absoluteSize obj) + offset b)"

text \<open>
  The shape of the tree under a node. \<open>descendants w X\<close>: the children of \<open>X\<close>, their
  children, and so on. \<open>single_parent w\<close>: a node is listed as a child only by its parent
  (the single-parent invariant of the specification). \<open>closed S w\<close>: the children of a
  node of \<open>S\<close> are in \<open>S\<close>. \<open>below S this w\<close>: \<open>S\<close> holds the children of \<open>this\<close> and all that is under
  them, and \<open>this\<close> is not among them (the node is not its own descendant).
  \<open>untouched_outside S w w'\<close>: from \<open>w\<close> to \<open>w'\<close> only nodes of \<open>S\<close> changed, and no
  children list, context or trace did.
\<close>

inductive_set descendants :: "world \<Rightarrow> ref \<Rightarrow> ref set" for w :: world and X :: ref where
  child: "c \<in> set (children (nodes w X)) \<Longrightarrow> c \<in> descendants w X"
| step: "n \<in> descendants w X \<Longrightarrow> c \<in> set (children (nodes w n)) \<Longrightarrow> c \<in> descendants w X"

definition single_parent :: "world \<Rightarrow> bool" where
  "single_parent w = (\<forall>n. \<forall>c\<in>set (children (nodes w n)). parent (nodes w c) = Some n)"

definition closed :: "ref set \<Rightarrow> world \<Rightarrow> bool" where
  "closed S w = (\<forall>n\<in>S. set (children (nodes w n)) \<subseteq> S)"

definition below :: "ref set \<Rightarrow> ref \<Rightarrow> world \<Rightarrow> bool" where
  "below S this w = (set (children (nodes w this)) \<subseteq> S \<and> closed S w \<and> this \<notin> S)"

definition untouched_outside :: "ref set \<Rightarrow> world \<Rightarrow> world \<Rightarrow> bool" where
  "untouched_outside S w w' =
     ((\<forall>m. m \<notin> S \<longrightarrow> nodes w' m = nodes w m)
      \<and> (\<forall>m. children (nodes w' m) = children (nodes w m))
      \<and> contexts w' = contexts w \<and> trace w' = trace w)"

text \<open>
  \<open>scene\<close> is the scenario of the specification: node 2 (A) with size offset (100, 100),
  position offset (0, 0) and anchor (0, 0) under the root; node 3 (B) with size scale
  (1, 1) under A; the context resized to 800 by 600. \<open>laid_out\<close>: after one frame.
  \<open>padded\<close>: the inline style of A is given a padding of offset 10 on its four sides.
  \<open>relaid\<close>: after the next frame.
\<close>

definition scene :: world where
  "scene = script
     [set_size 2 (SDim2_fromOffset 100 100),
      set_position 2 (SDim2_fromOffset 0 0),
      set_anchorPoint 2 (SDim2_fromOffset 0 0),
      set_parent 2 (Some 0),
      set_size 3 (SDim2_fromScale 1 1),
      set_parent 3 (Some 2),
      (\<lambda>w. Inr (set_context_size 1 0 \<lparr>vx = 800, vy = 600\<rparr> w))] stage"

definition laid_out :: world where
  "laid_out = state_of (update_context (=) 4 0 scene)"

definition padded :: world where
  "padded = upd_node 2 (\<lambda>obj. obj\<lparr>style := (style obj)\<lparr>
       paddingLeft := Some (SDim_fromOffset 10), paddingTop := Some (SDim_fromOffset 10),
       paddingRight := Some (SDim_fromOffset 10), paddingBottom := Some (SDim_fromOffset 10)\<rparr>\<rparr>) laid_out"

definition relaid :: world where
  "relaid = state_of (update_context (=) 4 0 padded)"

text \<open>Node 2 with size offset (100, 100) at position offset (-100, 0) under the root: its right edge is at 0.\<close>

definition edge :: world where
  "edge = script
     [set_size 2 (SDim2_fromOffset 100 100),
      set_position 2 (SDim2_fromOffset (-100) 0),
      set_parent 2 (Some 0)] stage"



definition same_tree :: "world \<Rightarrow> world \<Rightarrow> bool" where
  "same_tree w v = (\<forall>n. children (nodes v n) = children (nodes w n)
     \<and> visible (nodes v n) = visible (nodes w n)
     \<and> visibleOnScreen (nodes v n) = visibleOnScreen (nodes w n)
     \<and> clipsDescendants (nodes v n) = clipsDescendants (nodes w n))"




section \<open>Verification\<close>

subsection \<open>Styles\<close>

lemma assign_simps:
  "assign old None = old" "assign old (Some u) = Some u"
  by (simp_all add: assign_def)

lemma last_non_null_Nil: "last_non_null [] = None"
  by (simp add: last_non_null_def)

lemma last_non_null_snoc: "last_non_null (vs @ [v]) = assign (last_non_null vs) v"
  by (cases v) (simp_all add: last_non_null_def assign_def Let_def)

lemma merge_Nil: "merge [] = UIStyle_new"
  by (simp add: merge_def)

lemma merge_snoc: "merge (ss @ [c]) = merge_step (merge ss) c"
  by (simp add: merge_def)

lemma merge_step_new: "merge_step UIStyle_new s = s"
  by (simp add: merge_step_def UIStyle_new_def assign_def split: option.splits)

lemma merge_fields:
  "background (merge ss) = last_non_null (map background ss)"
  "color (merge ss) = last_non_null (map color ss)"
  "paddingLeft (merge ss) = last_non_null (map paddingLeft ss)"
  "paddingTop (merge ss) = last_non_null (map paddingTop ss)"
  "paddingRight (merge ss) = last_non_null (map paddingRight ss)"
  "paddingBottom (merge ss) = last_non_null (map paddingBottom ss)"
  "textSize (merge ss) = last_non_null (map textSize ss)"
  "textAlign (merge ss) = last_non_null (map textAlign ss)"
  "verticalTextAlign (merge ss) = last_non_null (map verticalTextAlign ss)"
  by (induction ss rule: rev_induct;
      simp add: merge_Nil merge_snoc merge_step_def UIStyle_new_def last_non_null_Nil last_non_null_snoc)+

lemma merge_inline: "merge [merge ss, c] = merge (ss @ [c])"
proof -
  have "merge [merge ss, c] = merge_step (merge_step UIStyle_new (merge ss)) c"
    by (simp add: merge_def)
  then show ?thesis
    by (simp add: merge_step_new merge_snoc)
qed

text \<open>
  Claim C5. The computed style of a UIObject is the merge of the default style, the
  styles list and the inline style, in that order. Every field of a merge holds the value
  of the last style of the sequence whose field is non-null, so a null field never
  overwrites and the inline style, being last, wins where it is non-null. Merging
  A and B and then applying C as the final override equals merging A, B and C.
\<close>

theorem computedStyle_override_merge:
  "computedStyle obj = merge (UIStyle_default # styles obj @ [style obj])
   \<and> background (merge ss) = last_non_null (map background ss)
   \<and> color (merge ss) = last_non_null (map color ss)
   \<and> paddingLeft (merge ss) = last_non_null (map paddingLeft ss)
   \<and> paddingTop (merge ss) = last_non_null (map paddingTop ss)
   \<and> paddingRight (merge ss) = last_non_null (map paddingRight ss)
   \<and> paddingBottom (merge ss) = last_non_null (map paddingBottom ss)
   \<and> textSize (merge ss) = last_non_null (map textSize ss)
   \<and> textAlign (merge ss) = last_non_null (map textAlign ss)
   \<and> verticalTextAlign (merge ss) = last_non_null (map verticalTextAlign ss)
   \<and> merge [merge [A, B], C] = merge [A, B, C]
   \<and> computedStyle obj = merge [merge (UIStyle_default # styles obj), style obj]"
proof -
  have "merge [merge [A, B], C] = merge ([A, B] @ [C])"
    by (rule merge_inline)
  moreover have "merge [merge (UIStyle_default # styles obj), style obj]
      = merge ((UIStyle_default # styles obj) @ [style obj])"
    by (rule merge_inline)
  ultimately show ?thesis
    by (simp add: computedStyle_def merge_fields)
qed

subsection \<open>The store and the relayout list\<close>

lemma upd_node_simps:
  "nodes (upd_node n f w) = (nodes w)(n := f (nodes w n))"
  "contexts (upd_node n f w) = contexts w"
  "trace (upd_node n f w) = trace w"
  by (simp_all add: upd_node_def)

lemma upd_context_simps:
  "nodes (upd_context c f w) = nodes w"
  "contexts (upd_context c f w) = (contexts w)(c := f (contexts w c))"
  "trace (upd_context c f w) = trace w"
  by (simp_all add: upd_context_def)

lemma scheduleLayout_nodes: "nodes (scheduleLayout c n w) = nodes w"
  by (simp add: scheduleLayout_def upd_context_simps)

lemma scheduleLayout_trace: "trace (scheduleLayout c n w) = trace w"
  by (simp add: scheduleLayout_def upd_context_simps)

lemma scheduleLayout_relayout:
  "relayout (contexts (scheduleLayout c n w) c') =
     (if c' = c \<and> ctx (nodes w n) = Some c \<and> parent (nodes w n) \<noteq> None \<and> visible (nodes w n)
         \<and> n \<notin> set (relayout (contexts w c))
      then relayout (contexts w c) @ [n] else relayout (contexts w c'))"
  by (simp add: scheduleLayout_def upd_context_simps)

lemmas store_simps = upd_node_simps upd_context_simps scheduleLayout_nodes scheduleLayout_trace
  scheduleLayout_relayout

lemma scheduleLayout_ok: "relayout_ok c' w \<Longrightarrow> relayout_ok c' (scheduleLayout c n w)"
  by (auto simp add: relayout_ok_def store_simps)

lemma scheduleLayout_distinct:
  "distinct (relayout (contexts w c')) \<Longrightarrow> distinct (relayout (contexts (scheduleLayout c n w) c'))"
  by (auto simp add: store_simps)

lemma set_property_ok:
  assumes "relayout_ok c w"
    and "parent (f (nodes w n)) = parent (nodes w n)"
    and "visible (nodes w n) \<Longrightarrow> visible (f (nodes w n))"
  shows "relayout_ok c (state_of (set_property f n w))"
  using assms
  by (auto simp add: set_property_def state_of_def Let_def relayout_ok_def list_all_iff store_simps
      split: option.splits)

lemma set_property_distinct:
  assumes "distinct (relayout (contexts w c))"
  shows "distinct (relayout (contexts (state_of (set_property f n w)) c))"
  using assms
  by (auto simp add: set_property_def state_of_def Let_def store_simps split: option.splits)

lemma state_of_simps: "state_of (Inl (e, w)) = w" "state_of (Inr w) = w"
  by (simp_all add: state_of_def)

lemma seq_state:
  assumes "P w" and "\<And>v. P v \<Longrightarrow> P (state_of (f v))" and "\<And>v. P v \<Longrightarrow> P (state_of (g v))"
  shows "P (state_of (seq f g w))"
proof (cases "f w")
  case (Inl e)
  then have "seq f g w = f w" by (simp add: seq_def)
  with assms show ?thesis by simp
next
  case (Inr v)
  then have "seq f g w = g v" by (simp add: seq_def)
  moreover have "P v" using assms(2)[OF assms(1)] Inr by (simp add: state_of_simps)
  ultimately show ?thesis using assms(3) by simp
qed

lemma leave_parent_ok: "relayout_ok c w \<Longrightarrow> relayout_ok c (state_of (leave_parent n w))"
  by (auto simp add: leave_parent_def state_of_def Let_def relayout_ok_def list_all_iff store_simps
      split: option.splits)

lemma join_parent_ok: "relayout_ok c w \<Longrightarrow> relayout_ok c (state_of (join_parent n (Some np) w))"
  by (auto simp add: join_parent_def state_of_def Let_def relayout_ok_def list_all_iff store_simps
      split: option.splits)

lemma leave_parent_distinct:
  "distinct (relayout (contexts w c)) \<Longrightarrow> distinct (relayout (contexts (state_of (leave_parent n w)) c))"
  by (auto simp add: leave_parent_def state_of_def Let_def store_simps split: option.splits)

lemma join_parent_distinct:
  "distinct (relayout (contexts w c)) \<Longrightarrow> distinct (relayout (contexts (state_of (join_parent n np w)) c))"
  by (auto simp add: join_parent_def state_of_def Let_def store_simps split: option.splits)

lemma set_parent_ok:
  assumes "relayout_ok c w"
  shows "relayout_ok c (state_of (set_parent n (Some np) w))"
proof -
  have "relayout_ok c (state_of (seq (leave_parent n) (join_parent n (Some np)) w))"
    by (rule seq_state[where P = "relayout_ok c"]) (simp_all add: assms leave_parent_ok join_parent_ok)
  with assms show ?thesis
    by (simp add: set_parent_def state_of_simps)
qed

lemma set_parent_distinct:
  assumes "distinct (relayout (contexts w c))"
  shows "distinct (relayout (contexts (state_of (set_parent n newParent w)) c))"
proof -
  have "distinct (relayout (contexts (state_of (seq (leave_parent n) (join_parent n newParent) w)) c))"
    by (rule seq_state[where P = "\<lambda>v. distinct (relayout (contexts v c))"])
      (simp_all add: assms leave_parent_distinct join_parent_distinct)
  with assms show ?thesis
    by (simp add: set_parent_def state_of_simps)
qed

lemmas run_simps = set_parent_def seq_def leave_parent_def join_parent_def scheduleLayout_def
  upd_node_def upd_context_def Context_new_def UIObject_new_def blank_def stage_def state_of_def
  set_property_def set_size_def set_visible_def set_position_def set_anchorPoint_def set_context_size_def
  splice1_def Let_def


lemma queued_facts:
  "relayout (contexts queued 0) = [2]" "parent (nodes queued 2) = Some 0" "visible (nodes queued 2)"
  by (simp_all add: queued_def run_simps)

text \<open>
  Claim C3, as amended. The relayout list of a context keeps its property (no entry twice,
  every entry with a parent and visible) under \<open>_scheduleLayout\<close>, under an assignment
  to position, size or anchorPoint, under \<open>visible = true\<close> and under an assignment of
  a parent that is not null. Under every property assignment and every assignment of a
  parent the list stays free of duplicates. \<open>_scheduleLayout\<close> either leaves the list as
  it is or appends the object, which then belongs to the context, has a parent, is visible
  and was not in the list. A resize appends the root of the context.
\<close>

theorem relayout_invariant_preservation:
  "(distinct (relayout (contexts w c)) \<longrightarrow>
      distinct (relayout (contexts (scheduleLayout c' object w) c))
    \<and> distinct (relayout (contexts (state_of (set_position n d w)) c))
    \<and> distinct (relayout (contexts (state_of (set_size n d w)) c))
    \<and> distinct (relayout (contexts (state_of (set_anchorPoint n d w)) c))
    \<and> distinct (relayout (contexts (state_of (set_visible n b w)) c))
    \<and> distinct (relayout (contexts (state_of (set_parent n newParent w)) c)))
   \<and> (relayout_ok c w \<longrightarrow>
      relayout_ok c (scheduleLayout c' object w)
    \<and> relayout_ok c (state_of (set_position n d w))
    \<and> relayout_ok c (state_of (set_size n d w))
    \<and> relayout_ok c (state_of (set_anchorPoint n d w))
    \<and> relayout_ok c (state_of (set_visible n True w))
    \<and> relayout_ok c (state_of (set_parent n (Some np) w)))
   \<and> (relayout (contexts (scheduleLayout c' object w) c) = relayout (contexts w c)
      \<or> (c = c' \<and> relayout (contexts (scheduleLayout c' object w) c) = relayout (contexts w c) @ [object]
          \<and> ctx (nodes w object) = Some c \<and> parent (nodes w object) \<noteq> None
          \<and> visible (nodes w object) \<and> object \<notin> set (relayout (contexts w c))))
   \<and> relayout (contexts (set_context_size ratio c v w) c) = relayout (contexts w c) @ [root (contexts w c)]"
proof (intro conjI impI)
  show "relayout (contexts (scheduleLayout c' object w) c) = relayout (contexts w c)
      \<or> (c = c' \<and> relayout (contexts (scheduleLayout c' object w) c) = relayout (contexts w c) @ [object]
          \<and> ctx (nodes w object) = Some c \<and> parent (nodes w object) \<noteq> None
          \<and> visible (nodes w object) \<and> object \<notin> set (relayout (contexts w c)))"
    by (auto simp add: scheduleLayout_relayout)
qed (simp_all add: scheduleLayout_distinct scheduleLayout_ok set_parent_distinct set_parent_ok
      set_position_def set_size_def set_anchorPoint_def set_visible_def
      set_property_distinct set_property_ok set_context_size_def upd_context_simps)

theorem relayout_invariant_preservation_witness:
  "relayout_ok 0 queued
   \<and> relayout_ok 0 (state_of (set_position 2 (SDim2_fromOffset 5 5) queued))
   \<and> relayout_ok 0 (state_of (set_parent 3 (Some 2) queued))
   \<and> relayout (contexts (state_of (set_position 2 (SDim2_fromOffset 5 5) queued)) 0) = [2]
   \<and> relayout (contexts (state_of (set_parent 2 (Some 3) (state_of (set_parent 3 (Some 0) queued)))) 0) = [2]"
proof -
  have ok: "relayout_ok 0 queued"
    by (simp add: relayout_ok_def queued_facts)
  have "relayout_ok 0 (state_of (set_position 2 (SDim2_fromOffset 5 5) queued))
     \<and> relayout_ok 0 (state_of (set_parent 3 (Some 2) queued))"
    using ok relayout_invariant_preservation [of queued 0 0 2 2 "SDim2_fromOffset 5 5" True "Some 3" 2]
      relayout_invariant_preservation [of queued 0 0 2 3 "SDim2_fromOffset 5 5" True "Some 3" 2]
    by blast
  moreover have "relayout (contexts (state_of (set_position 2 (SDim2_fromOffset 5 5) queued)) 0) = [2]"
    by (simp add: queued_def run_simps)
  moreover have "relayout (contexts (state_of (set_parent 2 (Some 3) (state_of (set_parent 3 (Some 0) queued)))) 0) = [2]"
    by (simp add: queued_def run_simps)
  ultimately show ?thesis using ok by simp
qed

text \<open>
  The claim as it was stated fails: a resize appends the root, whose parent is null,
  and a second resize appends it again; a node in the list stays there when it is then
  hidden or detached.
\<close>

theorem relayout_invariant_counterexample:
  "relayout (contexts (set_context_size 1 0 \<lparr>vx = 1024, vy = 768\<rparr> stage) 0) = [0]
   \<and> parent (nodes (set_context_size 1 0 \<lparr>vx = 1024, vy = 768\<rparr> stage) 0) = None
   \<and> relayout (contexts (set_context_size 1 0 \<lparr>vx = 640, vy = 480\<rparr>
        (set_context_size 1 0 \<lparr>vx = 1024, vy = 768\<rparr> stage)) 0) = [0, 0]
   \<and> relayout (contexts (state_of (set_visible 2 False queued)) 0) = [2]
   \<and> \<not> visible (nodes (state_of (set_visible 2 False queued)) 2)
   \<and> relayout (contexts (state_of (set_parent 2 None queued)) 0) = [2]
   \<and> parent (nodes (state_of (set_parent 2 None queued)) 2) = None"
  by (simp add: queued_def run_simps)


lemma indexOf_absent: "v \<notin> set xs \<Longrightarrow> indexOf xs v = -1"
  by (induction xs) (auto simp add: Let_def)

lemma indexOf_present:
  "v \<in> set xs \<Longrightarrow> 0 \<le> indexOf xs v \<and> nat (indexOf xs v) < length xs
     \<and> take (nat (indexOf xs v)) xs @ drop (Suc (nat (indexOf xs v))) xs = remove1 v xs"
proof (induction xs)
  case Nil
  then show ?case by simp
next
  case (Cons u us)
  show ?case
  proof (cases "u = v")
    case True
    then show ?thesis by simp
  next
    case False
    with Cons.prems have "v \<in> set us" by simp
    from Cons.IH[OF this] False show ?thesis
      by (simp add: Let_def nat_add_distrib)
  qed
qed

lemma splice1_indexOf:
  "splice1 xs (indexOf xs v) = (if v \<in> set xs then remove1 v xs else butlast xs)"
proof (cases "v \<in> set xs")
  case True
  from indexOf_present[OF this]
  have "0 \<le> indexOf xs v" and "indexOf xs v \<le> int (length xs)"
    and "take (nat (indexOf xs v)) xs @ drop (Suc (nat (indexOf xs v))) xs = remove1 v xs"
    by (simp, linarith, simp)
  then show ?thesis
    using True by (simp add: splice1_def Let_def min_def)
next
  case False
  then have "indexOf xs v = -1" by (rule indexOf_absent)
  then show ?thesis
    using False by (cases xs rule: rev_cases) (simp_all add: splice1_def Let_def butlast_conv_take)
qed

lemma remove1_once: "count_list xs v \<le> 1 \<Longrightarrow> v \<notin> set (remove1 v xs)"
  by (induction xs) (auto simp add: count_list_0_iff)

lemma splice1_removes:
  "count_list xs v \<le> 1 \<Longrightarrow> v \<notin> set (splice1 xs (indexOf xs v))"
  by (auto simp add: splice1_indexOf remove1_once dest: in_set_butlastD)

lemma leave_parent_returns:
  assumes "parent (nodes w this) = Some old" and "ctx (nodes w old) = Some c"
  shows "leave_parent this w = Inr (scheduleLayout c old (upd_node old
           (\<lambda>obj. obj\<lparr>children := splice1 (children obj) (indexOf (children obj) this)\<rparr>) w))"
  using assms by (simp add: leave_parent_def Let_def upd_node_simps)

lemma join_parent_returns:
  assumes "ctx (nodes w np) = Some c'"
  shows "join_parent this (Some np) w = Inr (upd_node this (\<lambda>obj. obj\<lparr>parent := Some np\<rparr>)
           (scheduleLayout c' this (upd_node np (\<lambda>obj. obj\<lparr>children := children obj @ [this]\<rparr>)
              (upd_node this (\<lambda>obj. obj\<lparr>ctx := Some c'\<rparr>) w))))"
  using assms by (simp add: join_parent_def Let_def upd_node_simps)

text \<open>
  Claim C6, as amended. Let \<open>child\<close> not be write-protected, with a parent \<open>old\<close> that belongs
  to a context \<open>c\<close>, and let \<open>newParent\<close> differ from \<open>old\<close> and belong to a context. Then
  \<open>child.parent = newParent\<close> returns; afterwards the context of \<open>child\<close> is that of
  \<open>newParent\<close>, its parent is \<open>newParent\<close>, \<open>old\<close> has lost the first occurrence of \<open>child\<close>
  in its children (so it no longer lists \<open>child\<close> when it listed it at most once), and
  \<open>old\<close> is in the relayout list of \<open>c\<close> exactly when it was there before or it has a
  parent itself and is visible.
\<close>

theorem reparent_effects:
  assumes "\<not> writeProtected (nodes w child)"
    and "parent (nodes w child) = Some old"
    and "newParent \<noteq> old"
    and "ctx (nodes w old) = Some c"
    and "ctx (nodes w newParent) = Some c'"
  shows "\<exists>w'. set_parent child (Some newParent) w = Inr w'
     \<and> ctx (nodes w' child) = ctx (nodes w' newParent)
     \<and> ctx (nodes w' child) = Some c'
     \<and> parent (nodes w' child) = Some newParent
     \<and> children (nodes w' old) = splice1 (children (nodes w old)) (indexOf (children (nodes w old)) child)
     \<and> (count_list (children (nodes w old)) child \<le> 1 \<longrightarrow> child \<notin> set (children (nodes w' old)))
     \<and> (old \<in> set (relayout (contexts w' c)) \<longleftrightarrow>
          old \<in> set (relayout (contexts w c)) \<or> (parent (nodes w old) \<noteq> None \<and> visible (nodes w old)))"
proof -
  define w1 where "w1 = scheduleLayout c old (upd_node old
     (\<lambda>obj. obj\<lparr>children := splice1 (children obj) (indexOf (children obj) child)\<rparr>) w)"
  define w2 where "w2 = upd_node child (\<lambda>obj. obj\<lparr>parent := Some newParent\<rparr>)
     (scheduleLayout c' child (upd_node newParent (\<lambda>obj. obj\<lparr>children := children obj @ [child]\<rparr>)
        (upd_node child (\<lambda>obj. obj\<lparr>ctx := Some c'\<rparr>) w1)))"
  have leave: "leave_parent child w = Inr w1"
    unfolding w1_def using assms(2,4) by (rule leave_parent_returns)
  have "ctx (nodes w1 newParent) = Some c'"
    using assms(3,5) by (simp add: w1_def store_simps)
  then have join: "join_parent child (Some newParent) w1 = Inr w2"
    unfolding w2_def by (rule join_parent_returns)
  have run: "set_parent child (Some newParent) w = Inr w2"
    using assms(1,2,3) leave join by (simp add: set_parent_def seq_def)
  have c1: "ctx (nodes w2 child) = Some c'"
    by (simp add: w2_def store_simps)
  have c2: "ctx (nodes w2 newParent) = Some c'"
    using assms(3,5) by (simp add: w2_def w1_def store_simps)
  have p: "parent (nodes w2 child) = Some newParent"
    by (simp add: w2_def store_simps)
  have ch: "children (nodes w2 old) = splice1 (children (nodes w old)) (indexOf (children (nodes w old)) child)"
    using assms(3) by (simp add: w2_def w1_def store_simps)
  have q1: "old \<in> set (relayout (contexts w1 c)) \<longleftrightarrow>
      old \<in> set (relayout (contexts w c)) \<or> (parent (nodes w old) \<noteq> None \<and> visible (nodes w old))"
    using assms(4) by (auto simp add: w1_def store_simps)
  have q2: "old \<in> set (relayout (contexts w2 c)) \<longleftrightarrow>
      old \<in> set (relayout (contexts w1 c)) \<or> (old = child \<and> c = c' \<and> parent (nodes w1 child) \<noteq> None \<and> visible (nodes w1 child))"
    by (auto simp add: w2_def store_simps)
  have same: "parent (nodes w1 child) = parent (nodes w child)" "visible (nodes w1 child) = visible (nodes w child)"
    by (simp_all add: w1_def store_simps)
  have q: "old \<in> set (relayout (contexts w2 c)) \<longleftrightarrow>
      old \<in> set (relayout (contexts w c)) \<or> (parent (nodes w old) \<noteq> None \<and> visible (nodes w old))"
    using q1 q2 same by auto
  show ?thesis
    using run c1 c2 p ch q by (simp add: splice1_removes)
qed

lemma nested_facts:
  "\<not> writeProtected (nodes nested 3)" "parent (nodes nested 3) = Some 2"
  "ctx (nodes nested 2) = Some 0" "ctx (nodes nested 0) = Some 0"
  "children (nodes nested 2) = [3]" "relayout (contexts nested 0) = []"
  "parent (nodes nested 2) = Some 0" "visible (nodes nested 2)"
  by (simp_all add: nested_def run_simps)

theorem reparent_effects_witness:
  "\<not> writeProtected (nodes nested 3) \<and> parent (nodes nested 3) = Some 2 \<and> (0::nat) \<noteq> 2
   \<and> ctx (nodes nested 2) = Some 0 \<and> ctx (nodes nested 0) = Some 0
   \<and> (\<exists>w'. set_parent 3 (Some 0) nested = Inr w'
        \<and> ctx (nodes w' 3) = ctx (nodes w' 0)
        \<and> parent (nodes w' 3) = Some 0
        \<and> 3 \<notin> set (children (nodes w' 2))
        \<and> 2 \<in> set (relayout (contexts w' 0)))"
  using reparent_effects [of nested 3 2 0 0 0]
  by (auto simp add: nested_facts)

text \<open>
  The claim as it was stated fails where the old parent is the root: node 2 moves from
  the root to node 3, and the root, whose own parent is null, is not in the relayout list.
  It fails where the old parent has no context: the assignment throws, and the child
  keeps its context. It fails where the old parent lists the child more than once: one
  occurrence is removed.
\<close>

theorem reparent_counterexample:
  "\<not> writeProtected (nodes siblings 2) \<and> parent (nodes siblings 2) = Some 0
   \<and> ctx (nodes siblings 0) = Some 0 \<and> ctx (nodes siblings 3) = Some 0
   \<and> returns (set_parent 2 (Some 3) siblings)
   \<and> parent (nodes (state_of (set_parent 2 (Some 3) siblings)) 2) = Some 3
   \<and> relayout (contexts (state_of (set_parent 2 (Some 3) siblings)) 0) = [2]
   \<and> 0 \<notin> set (relayout (contexts (state_of (set_parent 2 (Some 3) siblings)) 0))
   \<and> parent (nodes detached 3) = Some 2
   \<and> \<not> returns (set_parent 3 (Some 5) detached)
   \<and> ctx (nodes (state_of (set_parent 3 (Some 5) detached)) 3)
       \<noteq> ctx (nodes (state_of (set_parent 3 (Some 5) detached)) 5)
   \<and> parent (nodes doubled 3) = Some 2
   \<and> returns (set_parent 3 (Some 0) doubled)
   \<and> 3 \<in> set (children (nodes (state_of (set_parent 3 (Some 0) doubled)) 2))"
  by (simp add: siblings_def detached_def doubled_def script_def returns_def run_simps)

lemma join_parent_orphan:
  "parent (nodes w this) = None \<Longrightarrow>
   relayout (contexts (state_of (join_parent this newParent w)) c) = relayout (contexts w c)"
  by (cases newParent) (auto simp add: join_parent_def Let_def store_simps state_of_def split: option.splits)

lemma leave_parent_orphan: "parent (nodes w this) = None \<Longrightarrow> leave_parent this w = Inr w"
  by (simp add: leave_parent_def)

lemma set_parent_orphan:
  "parent (nodes w this) = None \<Longrightarrow>
   relayout (contexts (state_of (set_parent this newParent w)) c) = relayout (contexts w c)"
  by (simp add: set_parent_def seq_def leave_parent_orphan join_parent_orphan state_of_simps)

lemma join_parent_None_relayout:
  "relayout (contexts (state_of (join_parent this None w)) c) = relayout (contexts w c)"
  by (simp add: join_parent_def store_simps state_of_def)

lemma leave_parent_relayout:
  "n \<in> set (relayout (contexts (state_of (leave_parent this w)) c)) \<Longrightarrow>
   n \<in> set (relayout (contexts w c)) \<or> parent (nodes w this) = Some n"
  by (cases "parent (nodes w this)")
     (auto simp add: leave_parent_def Let_def store_simps state_of_def split: option.splits if_splits)

lemma set_parent_None_relayout:
  assumes "this \<in> set (relayout (contexts (state_of (set_parent this None w)) c))"
  shows "this \<in> set (relayout (contexts w c)) \<or> parent (nodes w this) = Some this"
proof (cases "writeProtected (nodes w this) \<or> parent (nodes w this) = None")
  case True
  then have "set_parent this None w = Inl (TypeError, w) \<or> set_parent this None w = Inr w"
    by (auto simp add: set_parent_def)
  with assms show ?thesis
    by (auto simp add: state_of_simps)
next
  case False
  then have run: "set_parent this None w = seq (leave_parent this) (join_parent this None) w"
    by (auto simp add: set_parent_def)
  show ?thesis
  proof (cases "leave_parent this w")
    case (Inl e)
    with run assms have "this \<in> set (relayout (contexts (state_of (leave_parent this w)) c))"
      by (simp add: seq_def)
    then show ?thesis by (rule leave_parent_relayout)
  next
    case (Inr v)
    with run assms have "this \<in> set (relayout (contexts (state_of (join_parent this None v)) c))"
      by (simp add: seq_def)
    then have "this \<in> set (relayout (contexts (state_of (leave_parent this w)) c))"
      using Inr by (simp add: join_parent_None_relayout state_of_simps)
    then show ?thesis by (rule leave_parent_relayout)
  qed
qed

text \<open>
  Claim C10. When the parent of a node is null, assigning it a parent leaves every
  relayout list as it was, so the node itself is not enqueued: \<open>_scheduleLayout\<close> runs
  before the parent field is written and reads the old parent. When the assignment does
  put the node into a list where it was not (and the node was not its own parent), the
  old parent and the new parent are both non-null.
\<close>

theorem set_parent_of_orphan:
  "(parent (nodes w this) = None \<longrightarrow>
      (\<forall>c. relayout (contexts (state_of (set_parent this newParent w)) c) = relayout (contexts w c)))
   \<and> (this \<in> set (relayout (contexts (state_of (set_parent this newParent w)) c))
       \<and> this \<notin> set (relayout (contexts w c)) \<and> parent (nodes w this) \<noteq> Some this
      \<longrightarrow> parent (nodes w this) \<noteq> None \<and> newParent \<noteq> None)"
proof (intro conjI impI allI)
  fix k
  assume "parent (nodes w this) = None"
  then show "relayout (contexts (state_of (set_parent this newParent w)) k) = relayout (contexts w k)"
    by (rule set_parent_orphan)
next
  assume a: "this \<in> set (relayout (contexts (state_of (set_parent this newParent w)) c))
       \<and> this \<notin> set (relayout (contexts w c)) \<and> parent (nodes w this) \<noteq> Some this"
  show "parent (nodes w this) \<noteq> None"
  proof
    assume "parent (nodes w this) = None"
    then have "relayout (contexts (state_of (set_parent this newParent w)) c) = relayout (contexts w c)"
      by (rule set_parent_orphan)
    with a show False by auto
  qed
  show "newParent \<noteq> None"
  proof
    assume "newParent = None"
    with a have "this \<in> set (relayout (contexts (state_of (set_parent this None w)) c))"
      by simp
    then have "this \<in> set (relayout (contexts w c)) \<or> parent (nodes w this) = Some this"
      by (rule set_parent_None_relayout)
    with a show False by auto
  qed
qed

theorem set_parent_of_orphan_witness:
  "parent (nodes stage 2) = None
   \<and> relayout (contexts (state_of (set_parent 2 (Some 0) stage)) 0) = relayout (contexts stage 0)
   \<and> parent (nodes (state_of (set_parent 2 (Some 0) stage)) 2) = Some 0
   \<and> 3 \<in> set (relayout (contexts (state_of (set_parent 3 (Some 0) nested)) 0))
   \<and> 3 \<notin> set (relayout (contexts nested 0))
   \<and> parent (nodes nested 3) \<noteq> None"
proof -
  have a: "parent (nodes stage 2) = None"
    by (simp add: run_simps)
  have b: "3 \<in> set (relayout (contexts (state_of (set_parent 3 (Some 0) nested)) 0))"
    by (simp add: nested_def run_simps)
  have c: "3 \<notin> set (relayout (contexts nested 0))" "parent (nodes nested 3) \<noteq> Some 3"
    by (simp_all add: nested_facts)
  have d: "parent (nodes (state_of (set_parent 2 (Some 0) stage)) 2) = Some 0"
    by (simp add: run_simps)
  from a b c d set_parent_of_orphan [of stage 2 "Some 0" 0] set_parent_of_orphan [of nested 3 "Some 0" 0]
  show ?thesis by blast
qed

subsection \<open>Trees\<close>

lemma descendants_closed: "closed (descendants w X) w"
  unfolding closed_def by (auto intro: descendants.step)

lemma descendants_children: "set (children (nodes w X)) \<subseteq> descendants w X"
  by (auto intro: descendants.child)

lemma below_descendants: "this \<notin> descendants w this \<Longrightarrow> below (descendants w this) this w"
  by (simp add: below_def descendants_closed descendants_children)


lemma root_not_descendant:
  assumes "single_parent w" and "parent (nodes w r) = None"
  shows "r \<notin> descendants w X"
proof
  assume "r \<in> descendants w X"
  then obtain n where "r \<in> set (children (nodes w n))"
    by cases auto
  with assms(1) have "parent (nodes w r) = Some n"
    by (simp add: single_parent_def)
  with assms(2) show False by simp
qed


lemma descendants_leaf: "children (nodes w X) = [] \<Longrightarrow> d \<notin> descendants w X"
proof
  assume leaf: "children (nodes w X) = []" and "d \<in> descendants w X"
  from this(2) show False
    by induction (simp_all add: leaf)
qed

subsection \<open>Layout\<close>

lemma last_non_null_Some: "\<exists>d. last_non_null (Some u # vs) = Some d"
proof -
  let ?ys = "filter (\<lambda>v. v \<noteq> None) (Some u # vs)"
  have ne: "?ys \<noteq> []" by simp
  then have "last ?ys \<in> set ?ys" by (rule last_in_set)
  then have "last ?ys \<noteq> None" by (simp del: filter.simps)
  with ne show ?thesis
    by (auto simp add: last_non_null_def Let_def simp del: filter.simps)
qed

lemma computedStyle_padding:
  "\<exists>l t r b. paddingLeft (computedStyle obj) = Some l \<and> paddingTop (computedStyle obj) = Some t
     \<and> paddingRight (computedStyle obj) = Some r \<and> paddingBottom (computedStyle obj) = Some b"
proof -
  have "\<And>vs. \<exists>d. last_non_null (Some SDim_new # vs) = Some d"
    by (rule last_non_null_Some)
  then show ?thesis
    by (simp add: computedStyle_def merge_fields UIStyle_default_def UIStyle_fromDefault_def)
qed

lemma upd_node_twice: "upd_node n f (upd_node n g w) = upd_node n (\<lambda>obj. f (g obj)) w"
  by (simp add: upd_node_def)

lemma layout_padding_returns:
  assumes "paddingLeft cs = Some l" "paddingTop cs = Some t" "paddingRight cs = Some r"
    "paddingBottom cs = Some b"
  shows "layout_padding this cs ax ay w = Inr (upd_node this (\<lambda>obj. obj\<lparr>
      absolutePaddingLeft := scale l * ax + offset l,
      absolutePaddingTop := scale t * ay + offset t,
      absolutePaddingRight := scale r * ax + offset r,
      absolutePaddingBottom := scale b * ay + offset b\<rparr>) w)"
  using assms
  by (simp add: layout_padding_def seq_def read_dim_def modify_def upd_node_twice)

lemma seq_Inr: "f w = Inr w' \<Longrightarrow> seq f g w = g w'"
  by (simp add: seq_def)

lemma seq_Inl: "f w = Inl e \<Longrightarrow> seq f g w = Inl e"
  by (simp add: seq_def)

lemma layout_position_returns:
  "\<exists>f. layout_position this p ax ay w = Inr (upd_node this f w)
     \<and> (\<forall>obj. f obj = obj\<lparr>absoluteAnchorPoint := absoluteAnchorPoint (f obj),
                             absolutePosition := absolutePosition (f obj)\<rparr>)"
  unfolding layout_position_def Let_def upd_node_twice
  by (rule exI, rule conjI, rule refl) simp

lemma layout_own_shape:
  assumes par: "parent (nodes w this) = Some p"
  shows "\<exists>w3. layout_own this up w =
        layout_visibility this (vx (absoluteSize (nodes w3 this))) (vy (absoluteSize (nodes w3 this))) w3
     \<and> contexts w3 = contexts w \<and> trace w3 = trace w
     \<and> (\<forall>m. m \<noteq> this \<longrightarrow> nodes w3 m = nodes w m)
     \<and> children (nodes w3 this) = children (nodes w this)
     \<and> ctx (nodes w3 this) = ctx (nodes w this)
     \<and> sized this p w (nodes w3 this)"
proof -
  obtain l t r b where pad: "paddingLeft (computedStyle (nodes w this)) = Some l"
    "paddingTop (computedStyle (nodes w this)) = Some t"
    "paddingRight (computedStyle (nodes w this)) = Some r"
    "paddingBottom (computedStyle (nodes w this)) = Some b"
    using computedStyle_padding by blast
  define ax where "ax = scaleX (size_dim (nodes w this)) * vx (absoluteSize (nodes w p))
      + offsetX (size_dim (nodes w this)) - absolutePaddingLeft (nodes w p) - absolutePaddingRight (nodes w p)"
  define ay where "ay = scaleY (size_dim (nodes w this)) * vy (absoluteSize (nodes w p))
      + offsetY (size_dim (nodes w this)) - absolutePaddingTop (nodes w p) - absolutePaddingBottom (nodes w p)"
  define f1 where "f1 = (\<lambda>obj::UIObject. obj\<lparr>
      absolutePaddingLeft := scale l * ax + offset l,
      absolutePaddingTop := scale t * ay + offset t,
      absolutePaddingRight := scale r * ax + offset r,
      absolutePaddingBottom := scale b * ay + offset b\<rparr>)"
  define f2 where "f2 = (\<lambda>obj::UIObject. obj\<lparr>absoluteSize := \<lparr>vx = ax, vy = ay\<rparr>\<rparr>)"
  have A: "layout_padding this (computedStyle (nodes w this)) ax ay w = Inr (upd_node this f1 w)"
    unfolding f1_def by (rule layout_padding_returns[OF pad])
  have B: "modify this f2 (upd_node this f1 w) = Inr (upd_node this (\<lambda>obj. f2 (f1 obj)) w)"
    by (simp add: modify_def upd_node_twice)
  obtain f3 where C: "(if up then layout_position this p ax ay else Inr) (upd_node this (\<lambda>obj. f2 (f1 obj)) w)
      = Inr (upd_node this f3 (upd_node this (\<lambda>obj. f2 (f1 obj)) w))"
    and f3: "\<And>obj. f3 obj = obj\<lparr>absoluteAnchorPoint := absoluteAnchorPoint (f3 obj),
                             absolutePosition := absolutePosition (f3 obj)\<rparr>"
  proof (cases up)
    case True
    obtain f where "layout_position this p ax ay (upd_node this (\<lambda>obj. f2 (f1 obj)) w) =
       Inr (upd_node this f (upd_node this (\<lambda>obj. f2 (f1 obj)) w))"
      and "\<And>obj. f obj = obj\<lparr>absoluteAnchorPoint := absoluteAnchorPoint (f obj),
                             absolutePosition := absolutePosition (f obj)\<rparr>"
      using layout_position_returns by blast
    with True show ?thesis
      by (intro that[of f]) auto
  next
    case False
    have "upd_node this (\<lambda>obj. obj) (upd_node this (\<lambda>obj. f2 (f1 obj)) w) = upd_node this (\<lambda>obj. f2 (f1 obj)) w"
      by (simp add: upd_node_def)
    then show ?thesis
      using False by (intro that[of "\<lambda>obj. obj"]) auto
  qed
  define w3 where "w3 = upd_node this (\<lambda>obj. f3 (f2 (f1 obj))) w"
  have w3: "upd_node this f3 (upd_node this (\<lambda>obj. f2 (f1 obj)) w) = w3"
    by (simp add: w3_def upd_node_twice)
  obtain a q where aq: "f3 (f2 (f1 (nodes w this))) = (f2 (f1 (nodes w this)))\<lparr>absoluteAnchorPoint := a, absolutePosition := q\<rparr>"
    using f3[of "f2 (f1 (nodes w this))"] by blast
  have n3: "nodes w3 this = (f2 (f1 (nodes w this)))\<lparr>absoluteAnchorPoint := a, absolutePosition := q\<rparr>"
    by (simp add: w3_def upd_node_simps aq)
  have sz: "absoluteSize (nodes w3 this) = \<lparr>vx = ax, vy = ay\<rparr>"
    by (simp add: n3 f2_def)
  have run: "layout_own this up w = layout_visibility this ax ay w3"
    using par A B C w3
    by (cases up)
       (simp_all add: layout_own_def Let_def seq_Inr seq_def ax_def[symmetric] ay_def[symmetric]
          f2_def[symmetric])
  have "sized this p w (nodes w3 this)"
    unfolding sized_def
    using pad by (simp add: n3 f2_def f1_def ax_def ay_def)
  moreover have "children (nodes w3 this) = children (nodes w this)" "ctx (nodes w3 this) = ctx (nodes w this)"
    by (simp_all add: n3 f2_def f1_def)
  moreover have "contexts w3 = contexts w" "trace w3 = trace w" "\<forall>m. m \<noteq> this \<longrightarrow> nodes w3 m = nodes w m"
    by (simp_all add: w3_def upd_node_simps)
  moreover have "layout_own this up w =
      layout_visibility this (vx (absoluteSize (nodes w3 this))) (vy (absoluteSize (nodes w3 this))) w3"
    using run sz by simp
  ultimately show ?thesis
    by blast
qed

lemma untouched_refl: "untouched_outside S w w"
  by (simp add: untouched_outside_def)

lemma untouched_trans:
  "untouched_outside S w v \<Longrightarrow> untouched_outside S v u \<Longrightarrow> untouched_outside S w u"
  by (simp add: untouched_outside_def)

lemma forEach_state:
  assumes "P w" and "\<And>a v. a \<in> set as \<Longrightarrow> P v \<Longrightarrow> P (state_of (f a v))"
  shows "P (state_of (forEach f as w))"
  using assms
proof (induction as arbitrary: w)
  case Nil
  then show ?case by (simp add: state_of_simps)
next
  case (Cons a as)
  show ?case
  proof (cases "f a w")
    case (Inl e)
    then have "forEach f (a # as) w = f a w" by simp
    with Cons.prems show ?thesis by simp
  next
    case (Inr v)
    then have run: "forEach f (a # as) w = forEach f as v" by simp
    have "P v" using Cons.prems(2)[of a w] Cons.prems(1) Inr by (simp add: state_of_simps)
    then have "P (state_of (forEach f as v))"
      using Cons.prems(2) by (intro Cons.IH) auto
    with run show ?thesis by simp
  qed
qed

lemma layout_visibility_state:
  "\<exists>b. state_of (layout_visibility this ax ay w) = upd_node this (\<lambda>obj. obj\<lparr>visibleOnScreen := b\<rparr>) w"
proof (cases "ctx (nodes w this)")
  case None
  have "upd_node this (\<lambda>obj. obj\<lparr>visibleOnScreen := visibleOnScreen (nodes w this)\<rparr>) w = w"
    by (simp add: upd_node_def)
  with None show ?thesis
    by (intro exI[of _ "visibleOnScreen (nodes w this)"]) (simp add: layout_visibility_def state_of_simps)
next
  case (Some c)
  then have "\<exists>b. layout_visibility this ax ay w = Inr (upd_node this (\<lambda>obj. obj\<lparr>visibleOnScreen := b\<rparr>) w)"
    unfolding layout_visibility_def Let_def by (simp only: option.case) (rule exI, rule refl)
  then show ?thesis
    by (auto simp add: state_of_simps)
qed

lemma layout_own_untouched:
  "untouched_outside {this} w (state_of (layout_own this up w))"
proof (cases "parent (nodes w this)")
  case None
  then show ?thesis
    by (simp add: layout_own_def state_of_simps untouched_refl)
next
  case (Some p)
  from layout_own_shape[OF this, of up] obtain w3 where
    run: "layout_own this up w =
        layout_visibility this (vx (absoluteSize (nodes w3 this))) (vy (absoluteSize (nodes w3 this))) w3"
    and w3: "contexts w3 = contexts w" "trace w3 = trace w" "\<forall>m. m \<noteq> this \<longrightarrow> nodes w3 m = nodes w m"
      "children (nodes w3 this) = children (nodes w this)"
    by blast
  obtain v where "state_of (layout_own this up w) = upd_node this (\<lambda>obj. obj\<lparr>visibleOnScreen := v\<rparr>) w3"
    using layout_visibility_state[of this "vx (absoluteSize (nodes w3 this))" "vy (absoluteSize (nodes w3 this))" w3] run
    by auto
  with w3 show ?thesis
    by (simp add: untouched_outside_def upd_node_simps)
qed

lemma untouched_mono: "untouched_outside S w v \<Longrightarrow> S \<subseteq> T \<Longrightarrow> untouched_outside T w v"
  by (auto simp add: untouched_outside_def)

lemma closed_untouched: "closed S w \<Longrightarrow> untouched_outside T w v \<Longrightarrow> closed S v"
  by (simp add: closed_def untouched_outside_def)

lemma layout_children_untouched:
  assumes call: "\<And>c v. c \<in> S \<Longrightarrow> closed S v \<Longrightarrow> untouched_outside S v (state_of (call c flag v))"
    and sub: "set (children (nodes w this)) \<subseteq> S" and cl: "closed S w"
  shows "untouched_outside S w (state_of (layout_children call this flag w))"
  unfolding layout_children_def
proof (rule forEach_state[where P = "untouched_outside S w"])
  show "untouched_outside S w w" by (rule untouched_refl)
next
  fix a v
  assume a: "a \<in> set (children (nodes w this))" and v: "untouched_outside S w v"
  have "closed S v" using cl v by (rule closed_untouched)
  with a sub have "untouched_outside S v (state_of (call a flag v))"
    by (intro call) auto
  then have "untouched_outside S v (state_of (if visible (nodes v a) then call a flag v else Inr v))"
    by (simp add: state_of_simps untouched_refl)
  with v show "untouched_outside S w (state_of (if visible (nodes v a) then call a flag v else Inr v))"
    by (rule untouched_trans)
qed

lemma seq_untouched:
  assumes "untouched_outside S w (state_of (f w))"
    and "\<And>v. f w = Inr v \<Longrightarrow> untouched_outside S v (state_of (g v))"
  shows "untouched_outside S w (state_of (seq f g w))"
proof (cases "f w")
  case (Inl e)
  then have "seq f g w = f w" by (simp add: seq_def)
  with assms(1) show ?thesis by simp
next
  case (Inr v)
  then have "seq f g w = g v" by (simp add: seq_def)
  moreover have "untouched_outside S w v" using assms(1) Inr by (simp add: state_of_simps)
  ultimately show ?thesis using assms(2)[OF Inr] by (simp add: untouched_trans)
qed

lemma layout_untouched:
  assumes call: "\<And>c v. c \<in> S \<Longrightarrow> closed S v \<Longrightarrow> untouched_outside S v (state_of (call c True v))"
    and mem: "this \<in> S" and cl: "closed S w"
  shows "untouched_outside S w (state_of (layout call this up None w))"
  unfolding layout_def
proof (rule seq_untouched)
  have "untouched_outside {this} w (state_of (layout_own this up w))"
    by (rule layout_own_untouched)
  moreover have "{this} \<subseteq> S" using mem by simp
  ultimately show a: "untouched_outside S w (state_of (layout_own this up w))"
    by (rule untouched_mono)
  fix v
  assume "layout_own this up w = Inr v"
  with a have v: "untouched_outside S w v" by (simp add: state_of_simps)
  with cl have clv: "closed S v" by (rule closed_untouched)
  have sub: "set (children (nodes v this)) \<subseteq> S"
    using clv mem unfolding closed_def by blast
  have "untouched_outside S v (state_of (layout_children call this True v))"
    using call sub clv by (rule layout_children_untouched)
  then show "untouched_outside S v (state_of (layout_children call this (None \<noteq> Some False) v))"
    by simp
qed

lemma root_layout_untouched:
  assumes call: "\<And>c v. c \<in> S \<Longrightarrow> closed S v \<Longrightarrow> untouched_outside S v (state_of (call c True v))"
    and mem: "this \<in> S" and cl: "closed S w"
  shows "untouched_outside S w (state_of (root_layout call this w))"
proof (cases "ctx (nodes w this)")
  case None
  then show ?thesis
    by (simp add: root_layout_def state_of_simps untouched_refl)
next
  case (Some c)
  have "untouched_outside S w
     (state_of (seq (modify this (\<lambda>obj. obj\<lparr>absoluteSize := size_vec (contexts w c)\<rparr>))
              (layout_children call this True) w))"
  proof (rule seq_untouched)
    show a: "untouched_outside S w (state_of (modify this (\<lambda>obj. obj\<lparr>absoluteSize := size_vec (contexts w c)\<rparr>) w))"
      using mem by (auto simp add: modify_def state_of_simps untouched_outside_def upd_node_simps)
    fix v
    assume "modify this (\<lambda>obj. obj\<lparr>absoluteSize := size_vec (contexts w c)\<rparr>) w = Inr v"
    with a have v: "untouched_outside S w v" by (simp add: state_of_simps)
    with cl have clv: "closed S v" by (rule closed_untouched)
    have sub: "set (children (nodes v this)) \<subseteq> S"
      using clv mem unfolding closed_def by blast
    show "untouched_outside S v (state_of (layout_children call this True v))"
      using call sub clv by (rule layout_children_untouched)
  qed
  with Some show ?thesis
    by (simp add: root_layout_def)
qed

lemma call_layout_untouched:
  "n \<in> S \<Longrightarrow> closed S w \<Longrightarrow> untouched_outside S w (state_of (call_layout depth n up w))"
proof (induction depth arbitrary: n up w)
  case 0
  then show ?case by (simp add: state_of_simps untouched_refl)
next
  case (Suc depth)
  have call: "\<And>c v. c \<in> S \<Longrightarrow> closed S v \<Longrightarrow> untouched_outside S v (state_of (call_layout depth c True v))"
    by (rule Suc.IH)
  show ?case
  proof (cases "layout_fn (nodes w n)")
    case DefaultLayout
    then show ?thesis
      using layout_untouched[where call = "call_layout depth" and S = S, OF call Suc.prems] by simp
  next
    case RootLayout
    then show ?thesis
      using root_layout_untouched[where call = "call_layout depth" and S = S, OF call Suc.prems] by simp
  next
    case TextLabelLayout
    then show ?thesis
      using layout_untouched[where call = "call_layout depth" and S = S, OF call Suc.prems] by simp
  qed
qed

lemma sized_visibleOnScreen: "sized this p w (obj\<lparr>visibleOnScreen := b\<rparr>) = sized this p w obj"
  by (simp add: sized_def)

lemma layout_own_sized:
  assumes "parent (nodes w this) = Some p"
  shows "sized this p w (nodes (state_of (layout_own this up w)) this)"
proof -
  from layout_own_shape[OF assms, of up] obtain w3 where
    run: "layout_own this up w =
        layout_visibility this (vx (absoluteSize (nodes w3 this))) (vy (absoluteSize (nodes w3 this))) w3"
    and sz: "sized this p w (nodes w3 this)"
    by blast
  obtain b where "state_of (layout_own this up w) = upd_node this (\<lambda>obj. obj\<lparr>visibleOnScreen := b\<rparr>) w3"
    using layout_visibility_state[of this "vx (absoluteSize (nodes w3 this))" "vy (absoluteSize (nodes w3 this))" w3] run
    by auto
  with sz show ?thesis
    by (simp add: upd_node_simps sized_visibleOnScreen)
qed

lemma layout_own_visible:
  assumes "parent (nodes w this) = Some p" and "ctx (nodes w this) = Some c"
  shows "\<exists>w'. layout_own this up w = Inr w' \<and> contexts w' = contexts w
     \<and> visibleOnScreen (nodes w' this) =
        (vx (absolutePosition (nodes w' this)) < vx (size_vec (contexts w' c))
         \<and> vy (absolutePosition (nodes w' this)) < vy (size_vec (contexts w' c))
         \<and> vx (absolutePosition (nodes w' this)) + vx (absoluteSize (nodes w' this)) > 0
         \<and> vy (absolutePosition (nodes w' this)) + vy (absoluteSize (nodes w' this)) > 0)"
proof -
  from layout_own_shape[OF assms(1), of up] obtain w3 where
    run: "layout_own this up w =
        layout_visibility this (vx (absoluteSize (nodes w3 this))) (vy (absoluteSize (nodes w3 this))) w3"
    and w3: "contexts w3 = contexts w" "ctx (nodes w3 this) = ctx (nodes w this)"
    by blast
  show ?thesis
    using assms(2) w3 unfolding run
    by (simp add: layout_visibility_def Let_def upd_node_simps)
qed

lemma call_layout_own_node:
  assumes "layout_fn (nodes w this) \<noteq> RootLayout" and "below S this w"
  shows "nodes (state_of (call_layout (Suc depth) this up w)) this = nodes (state_of (layout_own this up w)) this
     \<and> contexts (state_of (call_layout (Suc depth) this up w)) = contexts w"
proof -
  have own: "untouched_outside {this} w (state_of (layout_own this up w))"
    by (rule layout_own_untouched)
  have run: "call_layout (Suc depth) this up w =
      seq (layout_own this up) (layout_children (call_layout depth) this True) w"
    using assms(1) by (cases "layout_fn (nodes w this)") (simp_all add: layout_def)
  show ?thesis
  proof (cases "layout_own this up w")
    case (Inl e)
    then have "call_layout (Suc depth) this up w = layout_own this up w"
      using run by (simp add: seq_def)
    with own show ?thesis by (simp add: untouched_outside_def)
  next
    case (Inr v)
    with own have v: "untouched_outside {this} w v" by (simp add: state_of_simps)
    have cl: "closed S v" and sub: "set (children (nodes v this)) \<subseteq> S"
      using assms(2) v by (simp_all add: below_def closed_def untouched_outside_def)
    have "untouched_outside S v (state_of (layout_children (call_layout depth) this True v))"
      using call_layout_untouched sub cl by (rule layout_children_untouched)
    moreover have "this \<notin> S" using assms(2) by (simp add: below_def)
    moreover have "call_layout (Suc depth) this up w = layout_children (call_layout depth) this True v"
      using run Inr by (simp add: seq_def)
    ultimately show ?thesis
      using Inr v by (simp add: untouched_outside_def state_of_simps)
  qed
qed

text \<open>
  Claim C1. For a node with a parent that runs the default layout (or TextLabel's, which
  calls it) and is not its own descendant, a call of its \<open>layout\<close> leaves, on each axis,
  absoluteSize = size.scale * parent.absoluteSize + size.offset minus the parent's two
  absolute paddings of that axis, the parent's values being those at the call; and the
  node's own absolute padding on each side is the scale of that padding in its computed
  style times its own new absoluteSize on that axis, plus the offset.
\<close>

theorem layout_absolute_size_and_padding:
  assumes "parent (nodes w this) = Some p"
    and "layout_fn (nodes w this) \<noteq> RootLayout"
    and "this \<notin> descendants w this"
    and "w' = state_of (call_layout (Suc depth) this updatePosition w)"
  shows "vx (absoluteSize (nodes w' this)) =
       scaleX (size_dim (nodes w this)) * vx (absoluteSize (nodes w p)) + offsetX (size_dim (nodes w this))
       - absolutePaddingLeft (nodes w p) - absolutePaddingRight (nodes w p)
     \<and> vy (absoluteSize (nodes w' this)) =
       scaleY (size_dim (nodes w this)) * vy (absoluteSize (nodes w p)) + offsetY (size_dim (nodes w this))
       - absolutePaddingTop (nodes w p) - absolutePaddingBottom (nodes w p)
     \<and> (\<exists>l t r b.
          paddingLeft (computedStyle (nodes w this)) = Some l
        \<and> paddingTop (computedStyle (nodes w this)) = Some t
        \<and> paddingRight (computedStyle (nodes w this)) = Some r
        \<and> paddingBottom (computedStyle (nodes w this)) = Some b
        \<and> absolutePaddingLeft (nodes w' this) = scale l * vx (absoluteSize (nodes w' this)) + offset l
        \<and> absolutePaddingTop (nodes w' this) = scale t * vy (absoluteSize (nodes w' this)) + offset t
        \<and> absolutePaddingRight (nodes w' this) = scale r * vx (absoluteSize (nodes w' this)) + offset r
        \<and> absolutePaddingBottom (nodes w' this) = scale b * vy (absoluteSize (nodes w' this)) + offset b)"
proof -
  have "below (descendants w this) this w"
    using assms(3) by (rule below_descendants)
  then have "nodes w' this = nodes (state_of (layout_own this updatePosition w)) this"
    using call_layout_own_node[OF assms(2)] assms(4) by simp
  moreover have "sized this p w (nodes (state_of (layout_own this updatePosition w)) this)"
    using assms(1) by (rule layout_own_sized)
  ultimately have "sized this p w (nodes w' this)"
    by simp
  then show ?thesis
    unfolding sized_def by auto
qed

text \<open>
  Claim C4. For such a node that belongs to a context, after the call \<open>visibleOnScreen\<close>
  holds exactly when absolutePosition is below the context's size on both axes and
  absolutePosition + absoluteSize is above 0 on both axes; a node that touches an edge
  (the sum is 0, or the position equals the size, on some axis) is not on screen.
\<close>

theorem layout_visibleOnScreen:
  assumes "parent (nodes w this) = Some p"
    and "ctx (nodes w this) = Some c"
    and "layout_fn (nodes w this) \<noteq> RootLayout"
    and "this \<notin> descendants w this"
    and "w' = state_of (call_layout (Suc depth) this updatePosition w)"
  shows "(visibleOnScreen (nodes w' this) \<longleftrightarrow>
        vx (absolutePosition (nodes w' this)) < vx (size_vec (contexts w' c))
      \<and> vy (absolutePosition (nodes w' this)) < vy (size_vec (contexts w' c))
      \<and> vx (absolutePosition (nodes w' this)) + vx (absoluteSize (nodes w' this)) > 0
      \<and> vy (absolutePosition (nodes w' this)) + vy (absoluteSize (nodes w' this)) > 0)
     \<and> (vx (absolutePosition (nodes w' this)) + vx (absoluteSize (nodes w' this)) = 0
        \<or> vy (absolutePosition (nodes w' this)) + vy (absoluteSize (nodes w' this)) = 0
        \<or> vx (absolutePosition (nodes w' this)) = vx (size_vec (contexts w' c))
        \<or> vy (absolutePosition (nodes w' this)) = vy (size_vec (contexts w' c))
        \<longrightarrow> \<not> visibleOnScreen (nodes w' this))"
proof -
  obtain v where v: "layout_own this updatePosition w = Inr v" "contexts v = contexts w"
     "visibleOnScreen (nodes v this) =
        (vx (absolutePosition (nodes v this)) < vx (size_vec (contexts v c))
         \<and> vy (absolutePosition (nodes v this)) < vy (size_vec (contexts v c))
         \<and> vx (absolutePosition (nodes v this)) + vx (absoluteSize (nodes v this)) > 0
         \<and> vy (absolutePosition (nodes v this)) + vy (absoluteSize (nodes v this)) > 0)"
    using layout_own_visible[OF assms(1,2)] by blast
  have "below (descendants w this) this w"
    using assms(4) by (rule below_descendants)
  then have "nodes w' this = nodes v this" "contexts w' = contexts v"
    using call_layout_own_node[OF assms(3)] assms(5) v(1,2) by (simp_all add: state_of_simps)
  with v(3) show ?thesis
    by auto
qed

subsection \<open>The scenario of the specification\<close>

lemmas layout_simps = update_context_def layout_def layout_own_def layout_padding_def layout_position_def
  layout_visibility_def layout_children_def root_layout_def modify_def read_dim_def check_style_def
  strict_equal_def style_get_def computedStyle_def merge_def merge_step_def assign_def
  UIStyle_default_def UIStyle_fromDefault_def UIStyle_new_def emit_def SDim2_fromOffset_def
  SDim2_fromScale_def SDim_fromOffset_def SDim_new_def SDim2_new_def Vector2_new_def
  script_def

lemma four: "(4::nat) = Suc (Suc (Suc (Suc 0)))"
  by simp

lemma laid_out_root:
  "nodes laid_out 0 = UIObject_new\<lparr>name := ''Root'', ctx := Some 0, children := [2],
     absoluteSize := \<lparr>vx = 800, vy = 600\<rparr>,
     styleTriggersLayout := [(''paddingLeft'', Some (SDimValue SDim_new)),
       (''paddingTop'', Some (SDimValue SDim_new)), (''paddingRight'', Some (SDimValue SDim_new)),
       (''paddingBottom'', Some (SDimValue SDim_new))],
     layout_fn := RootLayout, writeProtected := True\<rparr>"
  by (simp add: laid_out_def scene_def run_simps layout_simps four)

lemma laid_out_A:
  "nodes laid_out 2 = UIObject_new\<lparr>ctx := Some 0, parent := Some 0, children := [3],
     absoluteSize := \<lparr>vx = 100, vy = 100\<rparr>,
     size_dim := SDim2_fromOffset 100 100,
     styleTriggersLayout := [(''paddingLeft'', Some (SDimValue SDim_new)),
       (''paddingTop'', Some (SDimValue SDim_new)), (''paddingRight'', Some (SDimValue SDim_new)),
       (''paddingBottom'', Some (SDimValue SDim_new))]\<rparr>"
  by (simp add: laid_out_def scene_def run_simps layout_simps four)

lemma laid_out_B:
  "nodes laid_out 3 = UIObject_new\<lparr>ctx := Some 0, parent := Some 2,
     absoluteSize := \<lparr>vx = 100, vy = 100\<rparr>,
     size_dim := SDim2_fromScale 1 1,
     styleTriggersLayout := [(''paddingLeft'', Some (SDimValue SDim_new)),
       (''paddingTop'', Some (SDimValue SDim_new)), (''paddingRight'', Some (SDimValue SDim_new)),
       (''paddingBottom'', Some (SDimValue SDim_new))]\<rparr>"
  by (simp add: laid_out_def scene_def run_simps layout_simps four)

lemma laid_out_context:
  "contexts laid_out 0 = \<lparr>relayout = [], root = 0, size_vec = \<lparr>vx = 800, vy = 600\<rparr>,
     canvasWidth = 800, canvasHeight = 600\<rparr>"
  by (simp add: laid_out_def scene_def run_simps layout_simps four)

lemmas laid_out_simps = laid_out_root laid_out_A laid_out_B laid_out_context

lemmas frame_simps = seq_def scheduleLayout_def upd_node_def upd_context_def UIObject_new_def
  state_of_def Let_def

lemma relaid_A:
  "nodes relaid 2 = UIObject_new\<lparr>ctx := Some 0, parent := Some 0, children := [3],
     absoluteSize := \<lparr>vx = 100, vy = 100\<rparr>,
     absolutePaddingLeft := 10, absolutePaddingTop := 10, absolutePaddingRight := 10,
     absolutePaddingBottom := 10,
     size_dim := SDim2_fromOffset 100 100,
     style := UIStyle_new\<lparr>paddingLeft := Some (SDim_fromOffset 10), paddingTop := Some (SDim_fromOffset 10),
       paddingRight := Some (SDim_fromOffset 10), paddingBottom := Some (SDim_fromOffset 10)\<rparr>,
     styleTriggersLayout := [(''paddingLeft'', Some (SDimValue (SDim_fromOffset 10))),
       (''paddingTop'', Some (SDimValue (SDim_fromOffset 10))),
       (''paddingRight'', Some (SDimValue (SDim_fromOffset 10))),
       (''paddingBottom'', Some (SDimValue (SDim_fromOffset 10)))]\<rparr>"
  by (simp add: relaid_def padded_def laid_out_simps frame_simps layout_simps four)

lemma relaid_B:
  "nodes relaid 3 = UIObject_new\<lparr>ctx := Some 0, parent := Some 2,
     absolutePosition := \<lparr>vx = 10, vy = 10\<rparr>,
     absoluteSize := \<lparr>vx = 80, vy = 80\<rparr>,
     size_dim := SDim2_fromScale 1 1,
     styleTriggersLayout := [(''paddingLeft'', Some (SDimValue SDim_new)),
       (''paddingTop'', Some (SDimValue SDim_new)), (''paddingRight'', Some (SDimValue SDim_new)),
       (''paddingBottom'', Some (SDimValue SDim_new))]\<rparr>"
  by (simp add: relaid_def padded_def laid_out_simps frame_simps layout_simps four)

theorem layout_absolute_size_and_padding_witness:
  "parent (nodes relaid 3) = Some 2 \<and> layout_fn (nodes relaid 3) \<noteq> RootLayout
   \<and> 3 \<notin> descendants relaid 3
   \<and> vx (absoluteSize (nodes (state_of (call_layout (Suc 0) 3 True relaid)) 3)) = 80
   \<and> vy (absoluteSize (nodes (state_of (call_layout (Suc 0) 3 True relaid)) 3)) = 80"
proof -
  have h1: "parent (nodes relaid 3) = Some 2"
    by (simp add: relaid_B UIObject_new_def)
  have h2: "layout_fn (nodes relaid 3) \<noteq> RootLayout"
    by (simp add: relaid_B UIObject_new_def)
  have h3: "3 \<notin> descendants relaid 3"
    by (rule descendants_leaf) (simp add: relaid_B UIObject_new_def)
  from layout_absolute_size_and_padding [OF h1 h2 h3 refl, of 0 True] h1 h2 h3
  show ?thesis
    by (simp add: relaid_A relaid_B UIObject_new_def SDim2_fromScale_def)
qed

lemma frames_return:
  "returns (update_context (=) 4 0 scene)" "returns (update_context (=) 4 0 padded)"
  by (simp add: scene_def run_simps layout_simps four returns_def,
      simp add: padded_def laid_out_simps frame_simps layout_simps four returns_def)

text \<open>
  Claim C2, as amended. In the scenario (context of 800 by 600, A of size offset (100, 100)
  at position offset (0, 0) with anchor (0, 0), B of size scale (1, 1) under A), after a
  frame A has absolutePosition (0, 0) and absoluteSize (100, 100) and B has absoluteSize
  (100, 100). After A is given a padding of offset 10 on its four sides and the next frame
  has run, A keeps absoluteSize (100, 100), and B has absoluteSize (80, 80), the two
  paddings of A on each axis being subtracted, and absolutePosition (10, 10). Both frames
  run to their end without an exception.
\<close>

theorem scenario_layout:
  "returns (update_context (=) 4 0 scene)
   \<and> returns (update_context (=) 4 0 padded)
   \<and> absolutePosition (nodes laid_out 2) = \<lparr>vx = 0, vy = 0\<rparr>
   \<and> absoluteSize (nodes laid_out 2) = \<lparr>vx = 100, vy = 100\<rparr>
   \<and> absoluteSize (nodes laid_out 3) = \<lparr>vx = 100, vy = 100\<rparr>
   \<and> absoluteSize (nodes relaid 2) = \<lparr>vx = 100, vy = 100\<rparr>
   \<and> absolutePaddingLeft (nodes relaid 2) + absolutePaddingRight (nodes relaid 2) = 20
   \<and> absolutePaddingTop (nodes relaid 2) + absolutePaddingBottom (nodes relaid 2) = 20
   \<and> absoluteSize (nodes relaid 3) = \<lparr>vx = 80, vy = 80\<rparr>
   \<and> absolutePosition (nodes relaid 3) = \<lparr>vx = 10, vy = 10\<rparr>"
  by (simp add: frames_return laid_out_A laid_out_B relaid_A relaid_B UIObject_new_def Vector2_new_def)

text \<open>The claim as it was stated fails: with the padding on A, the absoluteSize of B changes.\<close>

theorem scenario_padding_counterexample:
  "absoluteSize (nodes laid_out 3) = \<lparr>vx = 100, vy = 100\<rparr>
   \<and> absoluteSize (nodes relaid 3) \<noteq> absoluteSize (nodes laid_out 3)"
  by (simp add: laid_out_B relaid_B UIObject_new_def)

lemma edge_node:
  "parent (nodes edge 2) = Some 0" "ctx (nodes edge 2) = Some 0" "layout_fn (nodes edge 2) = DefaultLayout"
  "children (nodes edge 2) = []"
  by (simp_all add: edge_def run_simps script_def)

lemma edge_laid_out:
  "absolutePosition (nodes (state_of (call_layout (Suc 0) 2 True edge)) 2) = \<lparr>vx = -100, vy = 0\<rparr>"
  "absoluteSize (nodes (state_of (call_layout (Suc 0) 2 True edge)) 2) = \<lparr>vx = 100, vy = 100\<rparr>"
  by (simp_all add: edge_def run_simps layout_simps)

theorem layout_visibleOnScreen_witness:
  "parent (nodes edge 2) = Some 0 \<and> ctx (nodes edge 2) = Some 0
   \<and> layout_fn (nodes edge 2) \<noteq> RootLayout \<and> 2 \<notin> descendants edge 2
   \<and> vx (absolutePosition (nodes (state_of (call_layout (Suc 0) 2 True edge)) 2))
       + vx (absoluteSize (nodes (state_of (call_layout (Suc 0) 2 True edge)) 2)) = 0
   \<and> \<not> visibleOnScreen (nodes (state_of (call_layout (Suc 0) 2 True edge)) 2)"
proof -
  have h1: "parent (nodes edge 2) = Some 0" and h2: "ctx (nodes edge 2) = Some 0"
    and h3: "layout_fn (nodes edge 2) \<noteq> RootLayout"
    by (simp_all add: edge_node)
  have h4: "2 \<notin> descendants edge 2"
    by (rule descendants_leaf) (simp add: edge_node)
  have touch: "vx (absolutePosition (nodes (state_of (call_layout (Suc 0) 2 True edge)) 2))
       + vx (absoluteSize (nodes (state_of (call_layout (Suc 0) 2 True edge)) 2)) = 0"
    by (simp only: edge_laid_out) simp
  from layout_visibleOnScreen [OF h1 h2 h3 h4 refl, of 0 True] touch
  have "\<not> visibleOnScreen (nodes (state_of (call_layout (Suc 0) 2 True edge)) 2)"
    by blast
  with h1 h2 h3 h4 touch show ?thesis
    by blast
qed

subsection \<open>The traversals\<close>




lemma scheduleLayout_same_tree: "same_tree w v \<Longrightarrow> same_tree w (scheduleLayout c n v)"
  by (simp add: same_tree_def scheduleLayout_nodes)












subsection \<open>The static arithmetic\<close>











text \<open>
  Claim C8 does not hold of the code. A plain object in place of a Vector2, an SDim or an
  SDim2 is not refused: the operation returns a result, and \<open>null\<close> or \<open>true\<close> as a
  factor is taken as 0 or 1. The guard \<open>!a instanceof C\<close> is \<open>(!a) instanceof C\<close>, which
  is false of every value.
\<close>

theorem type_guards_let_objects_through:
  "Vector2_add (Instance Object_class [(''x'', Number 1), (''y'', Number 2)]) (Vector2_value \<lparr>vx = 3, vy = 4\<rparr>)
     = Inr (Vector2_value \<lparr>vx = 4, vy = 6\<rparr>)
   \<and> Vector2_subtract (Vector2_value \<lparr>vx = 3, vy = 4\<rparr>) (Instance Object_class [(''x'', Number 1), (''y'', Number 2)])
     = Inr (Vector2_value \<lparr>vx = 2, vy = 2\<rparr>)
   \<and> Vector2_multiply (Vector2_value \<lparr>vx = 3, vy = 4\<rparr>) Null = Inr (Vector2_value \<lparr>vx = 0, vy = 0\<rparr>)
   \<and> Vector2_divide (Instance Object_class [(''x'', Number 6), (''y'', Number 4)]) (Boolean True)
     = Inr (Vector2_value \<lparr>vx = 6, vy = 4\<rparr>)
   \<and> SDim_add (Instance Object_class [(''scale'', Number 1), (''offset'', Number 2)]) (SDim_value \<lparr>scale = 3, offset = 4\<rparr>)
     = Inr (SDim_value \<lparr>scale = 4, offset = 6\<rparr>)
   \<and> SDim_subtract (SDim_value \<lparr>scale = 3, offset = 4\<rparr>) (Instance Object_class [(''scale'', Number 1), (''offset'', Number 2)])
     = Inr (SDim_value \<lparr>scale = 2, offset = 2\<rparr>)
   \<and> SDim2_add (Instance Object_class [(''scaleX'', Number 1), (''offsetX'', Number 2), (''scaleY'', Number 3), (''offsetY'', Number 4)])
        (SDim2_value \<lparr>scaleX = 1, offsetX = 1, scaleY = 1, offsetY = 1\<rparr>)
     = Inr (SDim2_value \<lparr>scaleX = 2, offsetX = 3, scaleY = 4, offsetY = 5\<rparr>)
   \<and> SDim2_subtract (SDim2_value \<lparr>scaleX = 1, offsetX = 1, scaleY = 1, offsetY = 1\<rparr>)
        (Instance Object_class [(''scaleX'', Number 1), (''offsetX'', Number 2), (''scaleY'', Number 3), (''offsetY'', Number 4)])
     = Inr (SDim2_value \<lparr>scaleX = 0, offsetX = -1, scaleY = -2, offsetY = -3\<rparr>)"
  by (simp add: Vector2_add_def Vector2_subtract_def Vector2_multiply_def Vector2_divide_def
      SDim_add_def SDim_subtract_def SDim2_add_def SDim2_subtract_def SDim2_combine_def
      js_not_def isNaN_def and_then_def own_property_def
      js_add_def js_sub_def js_mul_def js_div_def
      Vector2_ctor_def SDim_ctor_def SDim2_ctor_def default_to_def
      Vector2_value_def SDim_value_def SDim2_value_def Let_def)

end
